theory Spec2Isabelle
  imports Complex_Main "HOL-Library.Monad_Syntax"
begin

section \<open>Tensors\<close>

text \<open>
  A tensor is its shape together with its elements in row-major order, the layout of a
  contiguous \<^verbatim>\<open>torch.Tensor\<close>. Floating-point numbers are idealised as reals; the section
  on float32 values gives the attention module on rounded numbers, infinities and NaN.
  An operation that raises in PyTorch (a shape mismatch, an index out of range) returns
  \<open>None\<close>. Operations are modelled at the ranks at which the forward pass of
  \<^verbatim>\<open>pointer_generator.py\<close> can reach them without raising; a rank outside of those
  gives \<open>None\<close>.
\<close>

datatype 'a tensor = Tensor (shape: "nat list") (data: "'a list")

definition numel :: "'a tensor \<Rightarrow> nat" where
  "numel t = prod_list (shape t)"

definition wf :: "'a tensor \<Rightarrow> bool" where
  "wf t = (length (data t) = prod_list (shape t))"

definition tabulate :: "nat list \<Rightarrow> (nat \<Rightarrow> 'a) \<Rightarrow> 'a tensor" where
  "tabulate s f = Tensor s (map f [0..<prod_list s])"

text \<open>\<^verbatim>\<open>torch.zeros(shape)\<close> and \<^verbatim>\<open>torch.zeros_like(t, dtype=torch.float)\<close>.\<close>

definition zeros :: "nat list \<Rightarrow> real tensor" where
  "zeros s = Tensor s (replicate (prod_list s) 0)"

definition zeros_like :: "'a tensor \<Rightarrow> real tensor" where
  "zeros_like t = zeros (shape t)"

text \<open>Element \<open>[i, j]\<close> of a matrix.\<close>

definition at2 :: "'a tensor \<Rightarrow> nat \<Rightarrow> nat \<Rightarrow> 'a" where
  "at2 t i j = data t ! (i * (shape t ! 1) + j)"

subsection \<open>Layout helpers\<close>

text \<open>
  Modelled from the spec: the helper modules \<^verbatim>\<open>utils.View\<close>, \<^verbatim>\<open>utils.Unsqueeze\<close> and
  \<^verbatim>\<open>utils.Permute\<close> of \<^verbatim>\<open>model/utils.py\<close> are not part of the sources at hand; the
  spec calls them reshape, unsqueeze and permute transforms, and they are taken to call
  \<^verbatim>\<open>Tensor.view\<close>, \<^verbatim>\<open>Tensor.unsqueeze\<close> and \<^verbatim>\<open>Tensor.permute\<close> with the arguments
  they were built with.

  \<open>View k\<close> is \<^verbatim>\<open>view(-1, k)\<close>: the elements stay in place and are read as rows of
  \<open>k\<close>. It raises when the number of elements is no multiple of \<open>k\<close>, and for
  \<open>k = 0\<close>. Every view of the forward pass is taken of a tensor whose strides allow it.
\<close>

definition View :: "nat \<Rightarrow> 'a tensor \<Rightarrow> 'a tensor option" where
  "View k t =
     (if 0 < k \<and> numel t mod k = 0
      then Some (Tensor [numel t div k, k] (data t))
      else None)"

definition Unsqueeze :: "nat \<Rightarrow> 'a tensor \<Rightarrow> 'a tensor option" where
  "Unsqueeze d t =
     (if d \<le> length (shape t)
      then Some (Tensor (take d (shape t) @ [1] @ drop d (shape t)) (data t))
      else None)"

text \<open>
  Exchanging the first two dimensions: element \<open>[j, i, \<dots>]\<close> of the result is element
  \<open>[i, j, \<dots>]\<close> of the argument.
\<close>

definition transpose01 :: "'a tensor \<Rightarrow> 'a tensor option" where
  "transpose01 t =
     (case shape t of
        a # b # rest \<Rightarrow>
          (let c = prod_list rest in
           Some (tabulate (b # a # rest)
                   (\<lambda>k. data t ! (((k div c) mod a * b + (k div c) div a) * c + k mod c))))
      | _ \<Rightarrow> None)"

text \<open>\<^verbatim>\<open>Permute(1, 0)\<close> and \<^verbatim>\<open>permute(1, 0)\<close>: the tensor must be a matrix.\<close>

definition Permute10 :: "'a tensor \<Rightarrow> 'a tensor option" where
  "Permute10 t = (if length (shape t) = 2 then transpose01 t else None)"

text \<open>\<^verbatim>\<open>permute(1, 0, 2)\<close>: the tensor must have three dimensions.\<close>

definition permute102 :: "'a tensor \<Rightarrow> 'a tensor option" where
  "permute102 t = (if length (shape t) = 3 then transpose01 t else None)"

text \<open>\<^verbatim>\<open>contiguous()\<close> changes the strides only, never the value.\<close>

definition contiguous :: "'a tensor \<Rightarrow> 'a tensor" where
  "contiguous t = t"

text \<open>
  \<^verbatim>\<open>expand(a', b', c')\<close> of a tensor of three dimensions: a dimension keeps its size, or
  has size 1 and is repeated.
\<close>

definition expandable :: "nat \<Rightarrow> nat \<Rightarrow> bool" where
  "expandable a a' = (a = a' \<or> a = 1)"

definition expand3 :: "nat \<Rightarrow> nat \<Rightarrow> nat \<Rightarrow> 'a tensor \<Rightarrow> 'a tensor option" where
  "expand3 a' b' c' t =
     (case shape t of
        [a, b, c] \<Rightarrow>
          (if expandable a a' \<and> expandable b b' \<and> expandable c c'
           then Some (tabulate [a', b', c']
                  (\<lambda>k. data t ! (((if a = 1 then 0 else k div c' div b') * b
                                   + (if b = 1 then 0 else k div c' mod b')) * c
                                  + (if c = 1 then 0 else k mod c'))))
           else None)
      | _ \<Rightarrow> None)"

subsection \<open>Arithmetic\<close>

text \<open>The sum of two matrices, with PyTorch's broadcasting of dimensions of size 1.\<close>

definition bdim :: "nat \<Rightarrow> nat \<Rightarrow> nat option" where
  "bdim a b = (if a = b then Some a else if a = 1 then Some b else if b = 1 then Some a else None)"

definition bidx :: "nat \<Rightarrow> nat \<Rightarrow> nat \<Rightarrow> nat \<Rightarrow> nat" where
  "bidx n m i j = (if n = 1 then 0 else i) * m + (if m = 1 then 0 else j)"

definition add :: "real tensor \<Rightarrow> real tensor \<Rightarrow> real tensor option" where
  "add x y =
     (case (shape x, shape y) of
        ([n, m], [n', m']) \<Rightarrow>
          (case (bdim n n', bdim m m') of
             (Some r, Some c) \<Rightarrow>
               Some (tabulate [r, c]
                 (\<lambda>k. data x ! bidx n m (k div c) (k mod c)
                      + data y ! bidx n' m' (k div c) (k mod c)))
           | _ \<Rightarrow> None)
      | _ \<Rightarrow> None)"

definition ReLU :: "real tensor \<Rightarrow> real tensor" where
  "ReLU t = Tensor (shape t) (map (max 0) (data t))"

definition Tanh :: "real tensor \<Rightarrow> real tensor" where
  "Tanh t = Tensor (shape t) (map tanh (data t))"

text \<open>
  \<^verbatim>\<open>Softmax(dim=0)\<close> and \<^verbatim>\<open>Softmax(dim=1)\<close> of a matrix: every entry is its exponential
  over the sum of the exponentials of its column, respectively of its row. (PyTorch subtracts
  the maximum before exponentiating, which leaves the quotient as it is.)
\<close>

definition Softmax0 :: "real tensor \<Rightarrow> real tensor option" where
  "Softmax0 t =
     (case shape t of
        [n, m] \<Rightarrow>
          Some (tabulate [n, m]
            (\<lambda>k. exp (data t ! k) / (\<Sum>i\<leftarrow>[0..<n]. exp (data t ! (i * m + k mod m)))))
      | _ \<Rightarrow> None)"

definition Softmax1 :: "real tensor \<Rightarrow> real tensor option" where
  "Softmax1 t =
     (case shape t of
        [n, m] \<Rightarrow>
          Some (tabulate [n, m]
            (\<lambda>k. exp (data t ! k) / (\<Sum>j\<leftarrow>[0..<m]. exp (data t ! (k div m * m + j)))))
      | _ \<Rightarrow> None)"

text \<open>
  \<^verbatim>\<open>torch.bmm\<close>: both arguments have three dimensions, the same number of matrices, and
  the inner dimensions agree.
\<close>

definition bmm :: "real tensor \<Rightarrow> real tensor \<Rightarrow> real tensor option" where
  "bmm x y =
     (case (shape x, shape y) of
        ([b, n, m], [b', m', p]) \<Rightarrow>
          (if b = b' \<and> m = m'
           then Some (tabulate [b, n, p]
                  (\<lambda>k. \<Sum>l\<leftarrow>[0..<m]. data x ! (k div p * m + l)
                                       * data y ! ((k div p div n * m + l) * p + k mod p)))
           else None)
      | _ \<Rightarrow> None)"

text \<open>\<^verbatim>\<open>torch.cat((x, y), dim=1)\<close> of two matrices with the same number of rows.\<close>

definition cat1 :: "'a tensor \<Rightarrow> 'a tensor \<Rightarrow> 'a tensor option" where
  "cat1 x y =
     (case (shape x, shape y) of
        ([n, a], [n', b]) \<Rightarrow>
          (if n = n'
           then Some (tabulate [n, a + b]
                  (\<lambda>k. if k mod (a + b) < a
                        then data x ! (k div (a + b) * a + k mod (a + b))
                        else data y ! (k div (a + b) * b + (k mod (a + b) - a))))
           else None)
      | _ \<Rightarrow> None)"

text \<open>\<^verbatim>\<open>t[i, :]\<close>: row \<open>i\<close> of a tensor of at least two dimensions.\<close>

definition index_row :: "'a tensor \<Rightarrow> nat \<Rightarrow> 'a tensor option" where
  "index_row t i =
     (case shape t of
        n # m # rest \<Rightarrow>
          (if i < n
           then Some (tabulate (m # rest) (\<lambda>k. data t ! (i * prod_list (m # rest) + k)))
           else None)
      | _ \<Rightarrow> None)"


section \<open>Library modules\<close>

text \<open>
  \<^verbatim>\<open>nn.Linear\<close>: the last dimension of the argument is \<open>in_features\<close>; every row \<open>r\<close>
  of that length becomes \<open>W r + b\<close>. The rows of \<open>weight\<close> are the rows of PyTorch's
  weight matrix of shape \<open>[out_features, in_features]\<close>.
\<close>

record linear =
  in_features :: nat
  out_features :: nat
  weight :: "real list list"
  bias :: "real list"

definition dot :: "real list \<Rightarrow> real list \<Rightarrow> real" where
  "dot u v = sum_list (map2 (*) u v)"

definition slice :: "nat \<Rightarrow> nat \<Rightarrow> 'a list \<Rightarrow> 'a list" where
  "slice off len xs = take len (drop off xs)"

definition Linear :: "linear \<Rightarrow> real tensor \<Rightarrow> real tensor option" where
  "Linear L t =
     (if shape t \<noteq> [] \<and> last (shape t) = in_features L
      then Some (tabulate (butlast (shape t) @ [out_features L])
             (\<lambda>k. dot (weight L ! (k mod out_features L))
                       (slice (k div out_features L * in_features L) (in_features L) (data t))
                  + bias L ! (k mod out_features L)))
      else None)"

text \<open>
  \<^verbatim>\<open>nn.Embedding\<close>: a table lookup; an id outside of \<open>[0, num_embeddings)\<close> raises.
  (\<^verbatim>\<open>padding_idx\<close> changes the initial value and the gradient of a row, not the lookup.)
\<close>

record embedding =
  num_embeddings :: nat
  embedding_dim :: nat
  table :: "real list list"

definition Embedding :: "embedding \<Rightarrow> int tensor \<Rightarrow> real tensor option" where
  "Embedding E x =
     (if list_all (\<lambda>i. 0 \<le> i \<and> i < int (num_embeddings E)) (data x)
      then Some (tabulate (shape x @ [embedding_dim E])
             (\<lambda>k. table E ! nat (data x ! (k div embedding_dim E)) ! (k mod embedding_dim E)))
      else None)"

text \<open>
  \<^verbatim>\<open>nn.LSTM\<close> with one layer, after the equations of its documentation. The four gates
  (input, forget, cell, output) are stacked in the rows of the weights, \<open>H\<close> rows each:
  \<open>weight_ih\<close> has \<open>4H\<close> rows of length \<open>input_size\<close>, \<open>weight_hh\<close> has \<open>4H\<close> rows of
  length \<open>H\<close>.
\<close>

record lstm_weights =
  weight_ih :: "real list list"
  weight_hh :: "real list list"
  bias_ih :: "real list"
  bias_hh :: "real list"

record lstm =
  input_size :: nat
  lstm_hidden_size :: nat
  l0 :: lstm_weights

record bilstm = lstm +
  l0_reverse :: lstm_weights

definition sigmoid :: "real \<Rightarrow> real" where
  "sigmoid x = 1 / (1 + exp (- x))"

definition lstm_gate :: "lstm_weights \<Rightarrow> real list \<Rightarrow> real list \<Rightarrow> nat \<Rightarrow> real" where
  "lstm_gate W x h k = dot (weight_ih W ! k) x + bias_ih W ! k + dot (weight_hh W ! k) h + bias_hh W ! k"

definition lstm_cell ::
  "nat \<Rightarrow> lstm_weights \<Rightarrow> real list \<Rightarrow> real list \<times> real list \<Rightarrow> real list \<times> real list" where
  "lstm_cell H W x s =
     (let h = fst s; c = snd s;
          c' = map (\<lambda>k. sigmoid (lstm_gate W x h (H + k)) * c ! k
                        + sigmoid (lstm_gate W x h k) * tanh (lstm_gate W x h (2 * H + k))) [0..<H];
          h' = map (\<lambda>k. sigmoid (lstm_gate W x h (3 * H + k)) * tanh (c' ! k)) [0..<H]
      in (h', c'))"

text \<open>The states after each element of a sequence.\<close>

fun lstm_scan ::
  "nat \<Rightarrow> lstm_weights \<Rightarrow> real list list \<Rightarrow> real list \<times> real list \<Rightarrow> (real list \<times> real list) list" where
  "lstm_scan H W [] s = []"
| "lstm_scan H W (x # xs) s = (let s' = lstm_cell H W x s in s' # lstm_scan H W xs s')"

text \<open>The inputs of batch element \<open>b\<close> over time, from a tensor of shape \<open>[T, B, I]\<close>.\<close>

definition lstm_inputs :: "nat \<Rightarrow> nat \<Rightarrow> nat \<Rightarrow> real tensor \<Rightarrow> nat \<Rightarrow> real list list" where
  "lstm_inputs T B I x b = map (\<lambda>t. slice ((t * B + b) * I) I (data x)) [0..<T]"

text \<open>
  One direction, with a given initial state \<open>(h0, c0)\<close>, each of shape \<open>[1, B, H]\<close>; the
  input has shape \<open>[T, B, input_size]\<close> with \<open>T > 0\<close>. The result is the output of shape
  \<open>[T, B, H]\<close> and the final \<open>h\<close> and \<open>c\<close> of shape \<open>[1, B, H]\<close>.
\<close>

definition LSTM ::
  "'a lstm_scheme \<Rightarrow> real tensor \<Rightarrow> real tensor \<times> real tensor
     \<Rightarrow> (real tensor \<times> real tensor \<times> real tensor) option" where
  "LSTM L x hc =
     (case shape x of
        [T, B, I] \<Rightarrow>
          (let H = lstm_hidden_size L in
           if I = input_size L \<and> 0 < T \<and> shape (fst hc) = [1, B, H] \<and> shape (snd hc) = [1, B, H]
           then
             (let states = (\<lambda>b. lstm_scan H (l0 L) (lstm_inputs T B I x b)
                                   (slice (b * H) H (data (fst hc)), slice (b * H) H (data (snd hc))))
              in Some (tabulate [T, B, H] (\<lambda>k. fst (states (k div H mod B) ! (k div H div B)) ! (k mod H)),
                       tabulate [1, B, H] (\<lambda>k. fst (last (states (k div H))) ! (k mod H)),
                       tabulate [1, B, H] (\<lambda>k. snd (last (states (k div H))) ! (k mod H))))
           else None)
      | _ \<Rightarrow> None)"

text \<open>
  Both directions, from the zero state (no initial state is given). The output has shape
  \<open>[T, B, 2H]\<close>: at time \<open>t\<close> the forward \<open>h\<close> after \<open>x\<^sub>0 \<dots> x\<^sub>t\<close> followed by the
  backward \<open>h\<close> after \<open>x\<^bsub>T-1\<^esub> \<dots> x\<^sub>t\<close>. The final states have shape \<open>[2, B, H]\<close>.
\<close>

definition BiLSTM ::
  "bilstm \<Rightarrow> real tensor \<Rightarrow> (real tensor \<times> real tensor \<times> real tensor) option" where
  "BiLSTM L x =
     (case shape x of
        [T, B, I] \<Rightarrow>
          (let H = lstm_hidden_size L in
           if I = input_size L \<and> 0 < T
           then
             (let z = replicate H 0;
                  fw = (\<lambda>b. lstm_scan H (l0 L) (lstm_inputs T B I x b) (z, z));
                  bw = (\<lambda>b. rev (lstm_scan H (l0_reverse L) (rev (lstm_inputs T B I x b)) (z, z)))
              in Some (tabulate [T, B, 2 * H]
                         (\<lambda>k. if k mod (2 * H) < H
                               then fst (fw (k div (2 * H) mod B) ! (k div (2 * H) div B)) ! (k mod (2 * H))
                               else fst (bw (k div (2 * H) mod B) ! (k div (2 * H) div B)) ! (k mod (2 * H) - H)),
                       tabulate [2, B, H]
                         (\<lambda>k. if k div H div B = 0
                               then fst (last (fw (k div H mod B))) ! (k mod H)
                               else fst (hd (bw (k div H mod B))) ! (k mod H)),
                       tabulate [2, B, H]
                         (\<lambda>k. if k div H div B = 0
                               then snd (last (fw (k div H mod B))) ! (k mod H)
                               else snd (hd (bw (k div H mod B))) ! (k mod H))))
           else None)
      | _ \<Rightarrow> None)"

section \<open>Encoder\<close>

record encoder =
  enc_hidden_size :: nat
  enc_embedding :: embedding
  enc_lstm :: bilstm
  enc_linear :: linear
  enc_reduce_hidden :: linear
  enc_reduce_cell :: linear

text \<open>The three \<^verbatim>\<open>nn.Sequential\<close> modules of \<^verbatim>\<open>Encoder.__init__\<close>.\<close>

definition Encoder_linear :: "encoder \<Rightarrow> real tensor \<Rightarrow> real tensor option" where
  "Encoder_linear E x = do {
     x \<leftarrow> View (2 * enc_hidden_size E) x;
     Linear (enc_linear E) x
   }"

definition Encoder_reduce_hidden :: "encoder \<Rightarrow> real tensor \<Rightarrow> real tensor option" where
  "Encoder_reduce_hidden E x = do {
     x \<leftarrow> View (enc_hidden_size E * 2) x;
     x \<leftarrow> Linear (enc_reduce_hidden E) x;
     Unsqueeze 0 (ReLU x)
   }"

definition Encoder_reduce_cell :: "encoder \<Rightarrow> real tensor \<Rightarrow> real tensor option" where
  "Encoder_reduce_cell E x = do {
     x \<leftarrow> View (enc_hidden_size E * 2) x;
     x \<leftarrow> Linear (enc_reduce_cell E) x;
     Unsqueeze 0 (ReLU x)
   }"

definition Encoder_forward ::
  "encoder \<Rightarrow> int tensor \<Rightarrow> (real tensor \<times> real tensor \<times> (real tensor \<times> real tensor)) option" where
  "Encoder_forward E x_in = do {
     x \<leftarrow> Embedding (enc_embedding E) x_in;
     (x, hidden, cell) \<leftarrow> BiLSTM (enc_lstm E) x;
     x_out \<leftarrow> Encoder_linear E (contiguous x);
     x \<leftarrow> permute102 (contiguous x);
     hidden \<leftarrow> transpose01 hidden;
     hidden \<leftarrow> Encoder_reduce_hidden E (contiguous hidden);
     cell \<leftarrow> transpose01 cell;
     cell \<leftarrow> Encoder_reduce_cell E (contiguous cell);
     Some (x, x_out, (hidden, cell))
   }"

section \<open>Attention\<close>

record attention =
  att_hidden_size :: nat
  att_batch_size :: nat
  att_features :: linear
  att_coverage :: linear
  att_attention :: linear

definition Attention_features :: "attention \<Rightarrow> real tensor \<Rightarrow> real tensor option" where
  "Attention_features A x = do {
     x \<leftarrow> Linear (att_features A) x;
     Unsqueeze 0 x
   }"

definition Attention_coverage :: "attention \<Rightarrow> real tensor \<Rightarrow> real tensor option" where
  "Attention_coverage A x = do {
     x \<leftarrow> View 1 x;
     Linear (att_coverage A) x
   }"

text \<open>
  The first two layers of the module \<^verbatim>\<open>self.attention\<close>, \<^verbatim>\<open>Tanh\<close> and
  \<^verbatim>\<open>Linear(2H, 1)\<close>, give the scores; the other four normalise and lay them out.
\<close>

definition Attention_scores :: "attention \<Rightarrow> real tensor \<Rightarrow> real tensor option" where
  "Attention_scores A x = Linear (att_attention A) (Tanh x)"

definition Attention_attention :: "attention \<Rightarrow> real tensor \<Rightarrow> real tensor option" where
  "Attention_attention A x = do {
     x \<leftarrow> Attention_scores A x;
     x \<leftarrow> View (att_batch_size A) x;
     x \<leftarrow> Softmax0 x;
     x \<leftarrow> Permute10 x;
     Unsqueeze 1 x
   }"

definition Attention_forward ::
  "attention \<Rightarrow> real tensor \<Rightarrow> real tensor \<Rightarrow> real tensor \<Rightarrow> real tensor
     \<Rightarrow> (real tensor \<times> real tensor \<times> real tensor) option" where
  "Attention_forward A hidden encoder_out encoder_features coverage =
     (case shape encoder_out of
        [batch, sequence_len, hidden_size] \<Rightarrow> do {
          decoder_features \<leftarrow> Attention_features A hidden;
          decoder_features \<leftarrow> expand3 sequence_len batch hidden_size decoder_features;
          decoder_features \<leftarrow> View hidden_size (contiguous decoder_features);
          coverage_features \<leftarrow> Attention_coverage A coverage;
          attention \<leftarrow> add encoder_features decoder_features;
          attention \<leftarrow> add attention coverage_features;
          attention \<leftarrow> Attention_attention A attention;
          context \<leftarrow> bmm attention encoder_out;
          context \<leftarrow> View (2 * att_hidden_size A) context;
          attention \<leftarrow> View sequence_len attention;
          attention \<leftarrow> Permute10 attention;
          coverage \<leftarrow> add coverage attention;
          Some (context, attention, coverage)
        }
      | _ \<Rightarrow> None)"

text \<open>
  The value of the local variable \<open>attention\<close> of \<^verbatim>\<open>Attention.forward\<close> before the module
  \<^verbatim>\<open>self.attention\<close> is applied to it: the sum of the encoder features, the decoder
  features and the coverage features.
\<close>

definition Attention_summed ::
  "attention \<Rightarrow> real tensor \<Rightarrow> real tensor \<Rightarrow> real tensor \<Rightarrow> real tensor \<Rightarrow> real tensor option" where
  "Attention_summed A hidden encoder_out encoder_features coverage =
     (case shape encoder_out of
        [batch, sequence_len, hidden_size] \<Rightarrow> do {
          decoder_features \<leftarrow> Attention_features A hidden;
          decoder_features \<leftarrow> expand3 sequence_len batch hidden_size decoder_features;
          decoder_features \<leftarrow> View hidden_size (contiguous decoder_features);
          coverage_features \<leftarrow> Attention_coverage A coverage;
          attention \<leftarrow> add encoder_features decoder_features;
          add attention coverage_features
        }
      | _ \<Rightarrow> None)"

section \<open>Decoder\<close>

record decoder =
  dec_hidden_size :: nat
  dec_attention :: attention
  dec_embedding :: embedding
  dec_lstm :: lstm
  dec_context :: linear
  dec_out1 :: linear
  dec_out2 :: linear

definition Decoder_context :: "decoder \<Rightarrow> real tensor \<Rightarrow> real tensor option" where
  "Decoder_context D x = do {
     x \<leftarrow> Linear (dec_context D) x;
     Unsqueeze 0 x
   }"

definition Decoder_out :: "decoder \<Rightarrow> real tensor \<Rightarrow> real tensor option" where
  "Decoder_out D x = do {
     x \<leftarrow> Linear (dec_out1 D) x;
     x \<leftarrow> Linear (dec_out2 D) x;
     Softmax1 x
   }"

definition Decoder_forward ::
  "decoder \<Rightarrow> int tensor \<Rightarrow> real tensor \<times> real tensor \<Rightarrow> real tensor \<Rightarrow> real tensor
     \<Rightarrow> real tensor \<Rightarrow> real tensor
     \<Rightarrow> (real tensor \<times> real tensor \<times> real tensor \<times> real tensor \<times> real tensor) option" where
  "Decoder_forward D x_in hidden_in encoder_out encoder_features context coverage = do {
     x \<leftarrow> Embedding (dec_embedding D) x_in;
     x \<leftarrow> cat1 context x;
     x \<leftarrow> Decoder_context D x;
     (x, hidden, cell) \<leftarrow> LSTM (dec_lstm D) x hidden_in;
     hidden \<leftarrow> View (dec_hidden_size D) hidden;
     cell \<leftarrow> View (dec_hidden_size D) cell;
     hidden_out \<leftarrow> cat1 hidden cell;
     (context, attention, coverage_next) \<leftarrow>
        Attention_forward (dec_attention D) hidden_out encoder_out encoder_features coverage;
     x \<leftarrow> View (dec_hidden_size D) x;
     x \<leftarrow> cat1 x context;
     x \<leftarrow> Decoder_out D x;
     Some (x, hidden_out, context, attention, coverage_next)
   }"

section \<open>PointerGeneratorNetwork\<close>

record pgn =
  max_summary_length :: nat
  pgn_batch_size :: nat
  pgn_hidden_size :: nat
  pgn_encoder :: encoder
  pgn_decoder :: decoder

text \<open>
  The local variables of \<^verbatim>\<open>PointerGeneratorNetwork.forward\<close>, each field with the
  prefix \<open>l_\<close>. \<open>decoder_hidden\<close> is unbound until the first iteration of the loop
  has assigned it.
\<close>

record locals =
  l_encoder_out :: "real tensor"
  l_encoder_features :: "real tensor"
  l_hidden :: "real tensor \<times> real tensor"
  l_context :: "real tensor"
  l_coverage :: "real tensor"
  l_outputs :: "real tensor list"
  l_attention_list :: "real tensor list"
  l_coverage_list :: "real tensor list"
  l_decoder_hidden :: "real tensor option"

text \<open>The body of the loop, at step \<open>i\<close>.\<close>

definition loop_body :: "pgn \<Rightarrow> int tensor \<Rightarrow> nat \<Rightarrow> locals \<Rightarrow> locals option" where
  "loop_body N summaries i st = do {
     decoder_input \<leftarrow> index_row summaries i;
     (decoder_out, dec_hidden, ctx, attention, cov) \<leftarrow>
        Decoder_forward (pgn_decoder N) decoder_input (l_hidden st) (l_encoder_out st)
          (l_encoder_features st) (l_context st) (l_coverage st);
     Some (st\<lparr>l_decoder_hidden := Some dec_hidden, l_context := ctx, l_coverage := cov,
              l_outputs := l_outputs st @ [decoder_out],
              l_attention_list := l_attention_list st @ [attention],
              l_coverage_list := l_coverage_list st @ [cov]\<rparr>)
   }"

fun loop :: "pgn \<Rightarrow> int tensor \<Rightarrow> nat list \<Rightarrow> locals \<Rightarrow> locals option" where
  "loop N summaries [] st = Some st"
| "loop N summaries (i # rest) st = do {
     st' \<leftarrow> loop_body N summaries i st;
     loop N summaries rest st'
   }"

text \<open>The locals at the entry of the loop.\<close>

definition forward_init :: "pgn \<Rightarrow> int tensor \<Rightarrow> locals option" where
  "forward_init N texts = do {
     (enc_out, enc_features, hid) \<leftarrow> Encoder_forward (pgn_encoder N) texts;
     Some \<lparr>l_encoder_out = enc_out, l_encoder_features = enc_features, l_hidden = hid,
           l_context = zeros [pgn_batch_size N, 2 * pgn_hidden_size N],
           l_coverage = zeros_like texts,
           l_outputs = [], l_attention_list = [], l_coverage_list = [],
           l_decoder_hidden = None\<rparr>
   }"

definition PointerGeneratorNetwork_forward ::
  "pgn \<Rightarrow> int tensor \<Rightarrow> int tensor
     \<Rightarrow> (real tensor list \<times> real tensor list \<times> real tensor list) option" where
  "PointerGeneratorNetwork_forward N texts summaries = do {
     st \<leftarrow> forward_init N texts;
     st \<leftarrow> loop N summaries [0..<max_summary_length N] st;
     Some (l_outputs st, l_attention_list st, l_coverage_list st)
   }"


section \<open>Rows, columns and degenerate distributions\<close>

text \<open>
  Row \<open>i\<close> and column \<open>j\<close> of a matrix, and the distributions with all the mass on one
  entry: one entry is 1 and every other entry is 0.
\<close>

definition row :: "'a tensor \<Rightarrow> nat \<Rightarrow> 'a list" where
  "row t i = map (at2 t i) [0..<shape t ! 1]"

definition column :: "'a tensor \<Rightarrow> nat \<Rightarrow> 'a list" where
  "column t j = map (\<lambda>i. at2 t i j) [0..<shape t ! 0]"

definition one_hot :: "real list \<Rightarrow> bool" where
  "one_hot v = list_ex (\<lambda>i. v = (replicate (length v) 0)[i := 1]) [0..<length v]"

section \<open>Construction\<close>

text \<open>
  What the constructors build: the dimensions of every module, as the \<^verbatim>\<open>__init__\<close> methods
  set them from the vocabulary size \<open>V\<close>, the batch size \<open>B\<close>, the embedding dimension
  \<open>E\<close> and the hidden size \<open>H\<close>. The values of the weights are arbitrary.
  \<^verbatim>\<open>nn.Embedding\<close> with \<^verbatim>\<open>padding_idx=0\<close> needs a vocabulary that is not empty.
\<close>

definition Linear_init :: "nat \<Rightarrow> nat \<Rightarrow> linear \<Rightarrow> bool" where
  "Linear_init i out L =
     (in_features L = i \<and> out_features L = out \<and> length (weight L) = out
      \<and> list_all (\<lambda>w. length w = i) (weight L) \<and> length (bias L) = out)"

definition Embedding_init :: "nat \<Rightarrow> nat \<Rightarrow> embedding \<Rightarrow> bool" where
  "Embedding_init V E M =
     (0 < V \<and> num_embeddings M = V \<and> embedding_dim M = E \<and> length (table M) = V
      \<and> list_all (\<lambda>r. length r = E) (table M))"

definition lstm_weights_init :: "nat \<Rightarrow> nat \<Rightarrow> lstm_weights \<Rightarrow> bool" where
  "lstm_weights_init I H W =
     (length (weight_ih W) = 4 * H \<and> list_all (\<lambda>r. length r = I) (weight_ih W)
      \<and> length (weight_hh W) = 4 * H \<and> list_all (\<lambda>r. length r = H) (weight_hh W)
      \<and> length (bias_ih W) = 4 * H \<and> length (bias_hh W) = 4 * H)"

definition LSTM_init :: "nat \<Rightarrow> nat \<Rightarrow> 'a lstm_scheme \<Rightarrow> bool" where
  "LSTM_init I H L = (input_size L = I \<and> lstm_hidden_size L = H \<and> lstm_weights_init I H (l0 L))"

definition BiLSTM_init :: "nat \<Rightarrow> nat \<Rightarrow> bilstm \<Rightarrow> bool" where
  "BiLSTM_init I H L = (LSTM_init I H L \<and> lstm_weights_init I H (l0_reverse L))"

definition Encoder_init :: "nat \<Rightarrow> nat \<Rightarrow> nat \<Rightarrow> encoder \<Rightarrow> bool" where
  "Encoder_init V E H Enc =
     (enc_hidden_size Enc = H
      \<and> Embedding_init V E (enc_embedding Enc)
      \<and> BiLSTM_init E H (enc_lstm Enc)
      \<and> Linear_init (H * 2) (H * 2) (enc_linear Enc)
      \<and> Linear_init (H * 2) H (enc_reduce_hidden Enc)
      \<and> Linear_init (H * 2) H (enc_reduce_cell Enc))"

definition Attention_init :: "nat \<Rightarrow> nat \<Rightarrow> attention \<Rightarrow> bool" where
  "Attention_init H B A =
     (att_hidden_size A = H \<and> att_batch_size A = B
      \<and> Linear_init (H * 2) (H * 2) (att_features A)
      \<and> Linear_init 1 (H * 2) (att_coverage A)
      \<and> Linear_init (H * 2) 1 (att_attention A))"

definition Decoder_init :: "nat \<Rightarrow> nat \<Rightarrow> nat \<Rightarrow> nat \<Rightarrow> decoder \<Rightarrow> bool" where
  "Decoder_init V B E H D =
     (dec_hidden_size D = H
      \<and> Attention_init H B (dec_attention D)
      \<and> Embedding_init V E (dec_embedding D)
      \<and> LSTM_init E H (dec_lstm D)
      \<and> Linear_init (H * 2 + E) E (dec_context D)
      \<and> Linear_init (H * 3) H (dec_out1 D)
      \<and> Linear_init H V (dec_out2 D))"

definition PointerGeneratorNetwork_init ::
  "nat \<Rightarrow> nat \<Rightarrow> nat \<Rightarrow> nat \<Rightarrow> nat \<Rightarrow> pgn \<Rightarrow> bool" where
  "PointerGeneratorNetwork_init V B msl E H N =
     (max_summary_length N = msl \<and> pgn_batch_size N = B \<and> pgn_hidden_size N = H
      \<and> Encoder_init V E H (pgn_encoder N)
      \<and> Decoder_init V B E H (pgn_decoder N))"


section \<open>Invariants of the loop\<close>

text \<open>
  What holds of the locals between two iterations, for a source of \<open>S\<close> positions and a
  batch of \<open>B\<close>: the coverage is the sum of the attention weights recorded so far, and the
  entry \<open>t\<close> of the coverage list is the sum of the attention weights of the steps up to and
  including \<open>t\<close>.
\<close>

definition coverage_inv :: "nat \<Rightarrow> nat \<Rightarrow> locals \<Rightarrow> bool" where
  "coverage_inv S B st =
     ((\<exists>W. shape (l_encoder_out st) = [B, S, W])
      \<and> shape (l_coverage st) = [S, B]
      \<and> length (l_attention_list st) = length (l_coverage_list st)
      \<and> (\<forall>k<S * B. data (l_coverage st) ! k
            = (\<Sum>j<length (l_attention_list st). data (l_attention_list st ! j) ! k))
      \<and> (\<forall>t<length (l_coverage_list st).
            shape (l_coverage_list st ! t) = [S, B]
            \<and> shape (l_attention_list st ! t) = [S, B]
            \<and> (\<forall>k<S * B. 0 < data (l_attention_list st ! t) ! k
                  \<and> data (l_coverage_list st ! t) ! k
                      = (\<Sum>j\<le>t. data (l_attention_list st ! j) ! k))))"

text \<open>The shapes of the tensors among the locals, for hidden size \<open>H\<close>.\<close>

definition locals_ok :: "nat \<Rightarrow> nat \<Rightarrow> nat \<Rightarrow> locals \<Rightarrow> bool" where
  "locals_ok S B H st =
     (shape (fst (l_hidden st)) = [1, B, H] \<and> shape (snd (l_hidden st)) = [1, B, H]
      \<and> shape (l_encoder_out st) = [B, S, 2 * H]
      \<and> shape (l_encoder_features st) = [S * B, 2 * H]
      \<and> shape (l_context st) = [B, 2 * H]
      \<and> shape (l_coverage st) = [S, B])"

text \<open>The token ids of a tensor are ids of a vocabulary of \<open>V\<close> tokens.\<close>

definition ids_in_range :: "nat \<Rightarrow> int tensor \<Rightarrow> bool" where
  "ids_in_range V t = list_all (\<lambda>i. 0 \<le> i \<and> i < int V) (data t)"

text \<open>Every distribution recorded so far has rows over \<open>V\<close> entries, all positive, of sum 1.\<close>

definition outputs_inv :: "nat \<Rightarrow> nat \<Rightarrow> locals \<Rightarrow> bool" where
  "outputs_inv B V st =
     (\<forall>t<length (l_outputs st).
        shape (l_outputs st ! t) = [B, V]
        \<and> (\<forall>i<B. (\<forall>j<V. 0 < at2 (l_outputs st ! t) i j)
                  \<and> (\<Sum>j<V. at2 (l_outputs st ! t) i j) = 1))"


section \<open>A concrete network\<close>

text \<open>
  The smallest network with more than one decoding step: a vocabulary of two tokens, batch
  size 1, embedding dimension 1, hidden size 1 and three decoding steps. Every weight is
  zero; the biases of the two state reductions of the encoder are 1. The source text has one
  token.
\<close>

definition ex_lstm_weights :: lstm_weights where
  "ex_lstm_weights =
     \<lparr>weight_ih = [[0], [0], [0], [0]], weight_hh = [[0], [0], [0], [0]],
      bias_ih = [0, 0, 0, 0], bias_hh = [0, 0, 0, 0]\<rparr>"

definition ex_embedding :: embedding where
  "ex_embedding = \<lparr>num_embeddings = 2, embedding_dim = 1, table = [[0], [1]]\<rparr>"

definition ex_encoder :: encoder where
  "ex_encoder =
     \<lparr>enc_hidden_size = 1, enc_embedding = ex_embedding,
      enc_lstm = \<lparr>input_size = 1, lstm_hidden_size = 1, l0 = ex_lstm_weights,
                  l0_reverse = ex_lstm_weights\<rparr>,
      enc_linear = \<lparr>in_features = 2, out_features = 2, weight = [[0, 0], [0, 0]], bias = [0, 0]\<rparr>,
      enc_reduce_hidden = \<lparr>in_features = 2, out_features = 1, weight = [[0, 0]], bias = [1]\<rparr>,
      enc_reduce_cell = \<lparr>in_features = 2, out_features = 1, weight = [[0, 0]], bias = [1]\<rparr>\<rparr>"

definition ex_attention :: attention where
  "ex_attention =
     \<lparr>att_hidden_size = 1, att_batch_size = 1,
      att_features = \<lparr>in_features = 2, out_features = 2, weight = [[0, 0], [0, 0]], bias = [0, 0]\<rparr>,
      att_coverage = \<lparr>in_features = 1, out_features = 2, weight = [[0], [0]], bias = [0, 0]\<rparr>,
      att_attention = \<lparr>in_features = 2, out_features = 1, weight = [[0, 0]], bias = [0]\<rparr>\<rparr>"

definition ex_decoder :: decoder where
  "ex_decoder =
     \<lparr>dec_hidden_size = 1, dec_attention = ex_attention, dec_embedding = ex_embedding,
      dec_lstm = \<lparr>input_size = 1, lstm_hidden_size = 1, l0 = ex_lstm_weights\<rparr>,
      dec_context = \<lparr>in_features = 3, out_features = 1, weight = [[0, 0, 0]], bias = [0]\<rparr>,
      dec_out1 = \<lparr>in_features = 3, out_features = 1, weight = [[0, 0, 0]], bias = [0]\<rparr>,
      dec_out2 = \<lparr>in_features = 1, out_features = 2, weight = [[0], [0]], bias = [0, 0]\<rparr>\<rparr>"

definition ex_pgn :: pgn where
  "ex_pgn =
     \<lparr>max_summary_length = 3, pgn_batch_size = 1, pgn_hidden_size = 1,
      pgn_encoder = ex_encoder, pgn_decoder = ex_decoder\<rparr>"

definition ex_texts :: "int tensor" where
  "ex_texts = Tensor [1, 1] [1]"

definition ex_summaries :: "int tensor" where
  "ex_summaries = Tensor [3, 1] [1, 1, 1]"

text \<open>
  The locals of the forward pass on this network and text: only the coverage, the three
  lists and \<open>decoder_hidden\<close> change from step to step.
\<close>

definition ex_st ::
  "real tensor option \<Rightarrow> real \<Rightarrow> real tensor list \<Rightarrow> real tensor list \<Rightarrow> real tensor list \<Rightarrow> locals" where
  "ex_st dh c outs atts covs =
     \<lparr>l_encoder_out = Tensor [1, 1, 2] [0, 0], l_encoder_features = Tensor [1, 2] [0, 0],
      l_hidden = (Tensor [1, 1, 1] [1], Tensor [1, 1, 1] [1]),
      l_context = Tensor [1, 2] [0, 0], l_coverage = Tensor [1, 1] [c],
      l_outputs = outs, l_attention_list = atts, l_coverage_list = covs, l_decoder_hidden = dh\<rparr>"

text \<open>The locals after step 0 and after step 1.\<close>

definition ex_st1 :: locals where
  "ex_st1 = ex_st (Some (Tensor [1, 2] [tanh (1 / 2) / 2, 1 / 2])) 1
              [Tensor [1, 2] [1 / 2, 1 / 2]] [Tensor [1, 1] [1]] [Tensor [1, 1] [1]]"

definition ex_st2 :: locals where
  "ex_st2 = ex_st (Some (Tensor [1, 2] [tanh (1 / 2) / 2, 1 / 2])) 2
              [Tensor [1, 2] [1 / 2, 1 / 2], Tensor [1, 2] [1 / 2, 1 / 2]]
              [Tensor [1, 1] [1], Tensor [1, 1] [1]] [Tensor [1, 1] [1], Tensor [1, 1] [2]]"

text \<open>What the forward pass returns on it, as the evaluation below shows.\<close>

definition ex_outputs :: "real tensor list" where
  "ex_outputs = [Tensor [1, 2] [1 / 2, 1 / 2], Tensor [1, 2] [1 / 2, 1 / 2], Tensor [1, 2] [1 / 2, 1 / 2]]"

definition ex_attentions :: "real tensor list" where
  "ex_attentions = [Tensor [1, 1] [1], Tensor [1, 1] [1], Tensor [1, 1] [1]]"

definition ex_coverages :: "real tensor list" where
  "ex_coverages = [Tensor [1, 1] [1], Tensor [1, 1] [2], Tensor [1, 1] [3]]"

text \<open>
  An attention module built for batch size 2 and hidden size 1, and arguments for it with a
  batch of 1 and two source positions: the hidden state of shape \<open>[1, 2]\<close>, the encoder
  output of shape \<open>[1, 2, 2]\<close>, the encoder features of shape \<open>[2, 2]\<close> and the coverage of
  shape \<open>[2, 1]\<close>.
\<close>

definition ex_attention2 :: attention where
  "ex_attention2 = ex_attention\<lparr>att_batch_size := 2\<rparr>"

definition ex_hidden2 :: "real tensor" where
  "ex_hidden2 = Tensor [1, 2] [0, 0]"

definition ex_encoder_out2 :: "real tensor" where
  "ex_encoder_out2 = Tensor [1, 2, 2] [0, 0, 0, 0]"

definition ex_encoder_features2 :: "real tensor" where
  "ex_encoder_features2 = Tensor [2, 2] [0, 0, 0, 0]"

definition ex_coverage2 :: "real tensor" where
  "ex_coverage2 = Tensor [2, 1] [0, 0]"

section \<open>float32 values\<close>

text \<open>
  The tensors of the program hold IEEE 754 binary32 numbers. The definitions above compute
  with reals; the ones of this section compute with binary32 values: a finite number, an
  infinity or NaN. A real result is rounded to the nearest number with 24 significant bits
  and an exponent of at least \<open>-126\<close> (below \<open>2^-126\<close> the numbers are subnormal, multiples of
  \<open>2^-149\<close>), ties to the even one; when the rounded number reaches \<open>2^128\<close> the result is an
  infinity, so that the largest finite number is \<open>2^128 - 2^104\<close>. The sum of the two
  infinities, the product of zero and an infinity, and the quotient of two zeros or of two
  infinities are NaN, every operation on NaN gives NaN, and every comparison with NaN is
  false. Zero has no sign here, and \<open>exp\<close> and \<open>tanh\<close> are taken to be correctly rounded.
\<close>

datatype f32 = Fin real | PInf | NInf | NaN

definition f32_max :: real where
  "f32_max = 2 ^ 128 - 2 ^ 104"

text \<open>The nearest integer, ties to the even one.\<close>

definition round_even :: "real \<Rightarrow> int" where
  "round_even q =
     (let f = \<lfloor>q\<rfloor> in
      if q - of_int f < 1 / 2 then f
      else if 1 / 2 < q - of_int f then f + 1
      else if even f then f else f + 1)"

text \<open>The distance between the binary32 numbers around \<open>x\<close>, for \<open>x \<noteq> 0\<close>.\<close>

definition f32_ulp :: "real \<Rightarrow> real" where
  "f32_ulp x = 2 powr (of_int (max \<lfloor>log 2 \<bar>x\<bar>\<rfloor> (- 126)) - 23)"

definition rnd :: "real \<Rightarrow> f32" where
  "rnd x =
     (if x = 0 then Fin 0
      else let y = of_int (round_even (x / f32_ulp x)) * f32_ulp x
           in if 2 ^ 128 \<le> y then PInf else if y \<le> - (2 ^ 128) then NInf else Fin y)"

fun fneg :: "f32 \<Rightarrow> f32" where
  "fneg (Fin a) = Fin (- a)"
| "fneg PInf = NInf"
| "fneg NInf = PInf"
| "fneg NaN = NaN"

fun fadd :: "f32 \<Rightarrow> f32 \<Rightarrow> f32" where
  "fadd (Fin a) (Fin b) = rnd (a + b)"
| "fadd NaN y = NaN"
| "fadd x NaN = NaN"
| "fadd PInf NInf = NaN"
| "fadd NInf PInf = NaN"
| "fadd PInf y = PInf"
| "fadd x PInf = PInf"
| "fadd NInf y = NInf"
| "fadd x NInf = NInf"

definition fsub :: "f32 \<Rightarrow> f32 \<Rightarrow> f32" where
  "fsub x y = fadd x (fneg y)"

fun fmul :: "f32 \<Rightarrow> f32 \<Rightarrow> f32" where
  "fmul (Fin a) (Fin b) = rnd (a * b)"
| "fmul NaN y = NaN"
| "fmul x NaN = NaN"
| "fmul (Fin a) PInf = (if a = 0 then NaN else if 0 < a then PInf else NInf)"
| "fmul (Fin a) NInf = (if a = 0 then NaN else if 0 < a then NInf else PInf)"
| "fmul PInf (Fin b) = (if b = 0 then NaN else if 0 < b then PInf else NInf)"
| "fmul NInf (Fin b) = (if b = 0 then NaN else if 0 < b then NInf else PInf)"
| "fmul PInf PInf = PInf"
| "fmul NInf NInf = PInf"
| "fmul PInf NInf = NInf"
| "fmul NInf PInf = NInf"

fun fdiv :: "f32 \<Rightarrow> f32 \<Rightarrow> f32" where
  "fdiv (Fin a) (Fin b) =
     (if b = 0 then (if a = 0 then NaN else if 0 < a then PInf else NInf) else rnd (a / b))"
| "fdiv NaN y = NaN"
| "fdiv x NaN = NaN"
| "fdiv (Fin a) y = Fin 0"
| "fdiv PInf (Fin b) = (if 0 \<le> b then PInf else NInf)"
| "fdiv NInf (Fin b) = (if 0 \<le> b then NInf else PInf)"
| "fdiv x y = NaN"

fun fmax :: "f32 \<Rightarrow> f32 \<Rightarrow> f32" where
  "fmax (Fin a) (Fin b) = Fin (max a b)"
| "fmax NaN y = NaN"
| "fmax x NaN = NaN"
| "fmax PInf y = PInf"
| "fmax x PInf = PInf"
| "fmax NInf y = y"
| "fmax x NInf = x"

fun fexp :: "f32 \<Rightarrow> f32" where
  "fexp (Fin a) = rnd (exp a)"
| "fexp PInf = PInf"
| "fexp NInf = Fin 0"
| "fexp NaN = NaN"

fun ftanh :: "f32 \<Rightarrow> f32" where
  "ftanh (Fin a) = rnd (tanh a)"
| "ftanh PInf = Fin 1"
| "ftanh NInf = Fin (- 1)"
| "ftanh NaN = NaN"

text \<open>The comparison \<open>x \<le> y\<close>.\<close>

fun fle :: "f32 \<Rightarrow> f32 \<Rightarrow> bool" where
  "fle (Fin a) (Fin b) = (a \<le> b)"
| "fle NaN y = False"
| "fle x NaN = False"
| "fle NInf y = True"
| "fle x PInf = True"
| "fle x y = False"

text \<open>
  A sum from left to right, and the product of a row of weights with a vector. The parameters
  of a module are binary32 numbers: the reals of the records are rounded.
\<close>

definition fsum :: "f32 list \<Rightarrow> f32" where
  "fsum xs = foldl fadd (Fin 0) xs"

definition fdot :: "real list \<Rightarrow> f32 list \<Rightarrow> f32" where
  "fdot w v = fsum (map2 fmul (map rnd w) v)"

subsection \<open>The attention module on float32 tensors\<close>

text \<open>
  The operations of \<^verbatim>\<open>Attention\<close> with this arithmetic; the layout operations are the ones
  above, which do not look at the elements. \<^verbatim>\<open>nn.Linear\<close> adds the products from left to
  right and the bias last (a backend may add in another order or fuse a product with a sum,
  which makes no difference to the overflow of a sum of terms of one sign).
  \<^verbatim>\<open>Softmax(dim=0)\<close> subtracts the maximum of the column before it exponentiates, as the
  kernel of PyTorch does.
\<close>

definition add_f32 :: "f32 tensor \<Rightarrow> f32 tensor \<Rightarrow> f32 tensor option" where
  "add_f32 x y =
     (case (shape x, shape y) of
        ([n, m], [n', m']) \<Rightarrow>
          (case (bdim n n', bdim m m') of
             (Some r, Some c) \<Rightarrow>
               Some (tabulate [r, c]
                 (\<lambda>k. fadd (data x ! bidx n m (k div c) (k mod c))
                            (data y ! bidx n' m' (k div c) (k mod c))))
           | _ \<Rightarrow> None)
      | _ \<Rightarrow> None)"

definition Tanh_f32 :: "f32 tensor \<Rightarrow> f32 tensor" where
  "Tanh_f32 t = Tensor (shape t) (map ftanh (data t))"

definition Softmax0_f32 :: "f32 tensor \<Rightarrow> f32 tensor option" where
  "Softmax0_f32 t =
     (case shape t of
        [n, m] \<Rightarrow>
          Some (tabulate [n, m]
            (\<lambda>k. let col = map (\<lambda>i. data t ! (i * m + k mod m)) [0..<n];
                      mx = foldl fmax NInf col
                  in fdiv (fexp (fsub (data t ! k) mx)) (fsum (map (\<lambda>x. fexp (fsub x mx)) col))))
      | _ \<Rightarrow> None)"

definition bmm_f32 :: "f32 tensor \<Rightarrow> f32 tensor \<Rightarrow> f32 tensor option" where
  "bmm_f32 x y =
     (case (shape x, shape y) of
        ([b, n, m], [b', m', p]) \<Rightarrow>
          (if b = b' \<and> m = m'
           then Some (tabulate [b, n, p]
                  (\<lambda>k. fsum (map (\<lambda>l. fmul (data x ! (k div p * m + l))
                                             (data y ! ((k div p div n * m + l) * p + k mod p)))
                               [0..<m])))
           else None)
      | _ \<Rightarrow> None)"

definition Linear_f32 :: "linear \<Rightarrow> f32 tensor \<Rightarrow> f32 tensor option" where
  "Linear_f32 L t =
     (if shape t \<noteq> [] \<and> last (shape t) = in_features L
      then Some (tabulate (butlast (shape t) @ [out_features L])
             (\<lambda>k. fadd (fdot (weight L ! (k mod out_features L))
                             (slice (k div out_features L * in_features L) (in_features L) (data t)))
                        (rnd (bias L ! (k mod out_features L)))))
      else None)"

definition Attention_features_f32 :: "attention \<Rightarrow> f32 tensor \<Rightarrow> f32 tensor option" where
  "Attention_features_f32 A x = do {
     x \<leftarrow> Linear_f32 (att_features A) x;
     Unsqueeze 0 x
   }"

definition Attention_coverage_f32 :: "attention \<Rightarrow> f32 tensor \<Rightarrow> f32 tensor option" where
  "Attention_coverage_f32 A x = do {
     x \<leftarrow> View 1 x;
     Linear_f32 (att_coverage A) x
   }"

definition Attention_scores_f32 :: "attention \<Rightarrow> f32 tensor \<Rightarrow> f32 tensor option" where
  "Attention_scores_f32 A x = Linear_f32 (att_attention A) (Tanh_f32 x)"

definition Attention_attention_f32 :: "attention \<Rightarrow> f32 tensor \<Rightarrow> f32 tensor option" where
  "Attention_attention_f32 A x = do {
     x \<leftarrow> Attention_scores_f32 A x;
     x \<leftarrow> View (att_batch_size A) x;
     x \<leftarrow> Softmax0_f32 x;
     x \<leftarrow> Permute10 x;
     Unsqueeze 1 x
   }"

definition Attention_forward_f32 ::
  "attention \<Rightarrow> f32 tensor \<Rightarrow> f32 tensor \<Rightarrow> f32 tensor \<Rightarrow> f32 tensor
     \<Rightarrow> (f32 tensor \<times> f32 tensor \<times> f32 tensor) option" where
  "Attention_forward_f32 A hidden encoder_out encoder_features coverage =
     (case shape encoder_out of
        [batch, sequence_len, hidden_size] \<Rightarrow> do {
          decoder_features \<leftarrow> Attention_features_f32 A hidden;
          decoder_features \<leftarrow> expand3 sequence_len batch hidden_size decoder_features;
          decoder_features \<leftarrow> View hidden_size (contiguous decoder_features);
          coverage_features \<leftarrow> Attention_coverage_f32 A coverage;
          attention \<leftarrow> add_f32 encoder_features decoder_features;
          attention \<leftarrow> add_f32 attention coverage_features;
          attention \<leftarrow> Attention_attention_f32 A attention;
          context \<leftarrow> bmm_f32 attention encoder_out;
          context \<leftarrow> View (2 * att_hidden_size A) context;
          attention \<leftarrow> View sequence_len attention;
          attention \<leftarrow> Permute10 attention;
          coverage \<leftarrow> add_f32 coverage attention;
          Some (context, attention, coverage)
        }
      | _ \<Rightarrow> None)"

text \<open>
  An attention module for hidden size 1 and batch size 1 whose score projection has the two
  weights \<open>f32_max\<close> (about \<open>3.4028235e38\<close>) and bias 0, every other parameter being 0; and
  arguments of a first decoding step on one source position: the decoder state of shape
  \<open>[1, 2]\<close>, the encoder output of shape \<open>[1, 1, 2]\<close>, the encoder features of shape
  \<open>[1, 2]\<close>, both 20, and the coverage of shape \<open>[1, 1]\<close>, which is zero.
\<close>

definition ex_attention_big :: attention where
  "ex_attention_big =
     ex_attention\<lparr>att_attention :=
        \<lparr>in_features = 2, out_features = 1, weight = [[f32_max, f32_max]], bias = [0]\<rparr>\<rparr>"

definition ex_hidden_f32 :: "f32 tensor" where
  "ex_hidden_f32 = Tensor [1, 2] [Fin 0, Fin 0]"

definition ex_encoder_out_f32 :: "f32 tensor" where
  "ex_encoder_out_f32 = Tensor [1, 1, 2] [Fin 1, Fin 1]"

definition ex_encoder_features_f32 :: "f32 tensor" where
  "ex_encoder_features_f32 = Tensor [1, 2] [Fin 20, Fin 20]"

definition ex_coverage_f32 :: "f32 tensor" where
  "ex_coverage_f32 = Tensor [1, 1] [Fin 0]"

section \<open>Facts about the tensor operations\<close>

lemma shape_tabulate [simp]: "shape (tabulate s f) = s"
  by (simp add: tabulate_def)

lemma length_data_tabulate [simp]: "length (data (tabulate s f)) = prod_list s"
  by (simp add: tabulate_def)

lemma data_tabulate_nth [simp]: "k < prod_list s \<Longrightarrow> data (tabulate s f) ! k = f k"
  by (simp add: tabulate_def)

lemma wf_tabulate [simp]: "wf (tabulate s f)"
  by (simp add: wf_def)

lemma sum_list_upt: "sum_list (map f [0..<n]) = sum f {..<n}"
  by (simp add: interv_sum_list_conv_sum_set_nat atLeast0LessThan)

lemma View_SomeD:
  assumes "View k t = Some v"
  shows "shape v = [numel t div k, k]" "data v = data t" "0 < k" "numel t mod k = 0"
  using assms by (auto simp: View_def split: if_splits)

lemma Unsqueeze_SomeD:
  assumes "Unsqueeze d t = Some u"
  shows "shape u = take d (shape t) @ [1] @ drop d (shape t)" "data u = data t"
  using assms by (auto simp: Unsqueeze_def split: if_splits)

lemma Linear_SomeD:
  assumes "Linear L t = Some y"
  shows "shape y = butlast (shape t) @ [out_features L]" "shape t \<noteq> []" "last (shape t) = in_features L" "wf y"
  using assms by (auto simp: Linear_def split: if_splits)

lemma Softmax1_rank:
  assumes "Softmax1 t = Some y"
  shows "\<exists>n m. shape t = [n, m]"
  using assms by (auto simp: Softmax1_def split: list.splits)

lemma Softmax1_SomeD:
  assumes "Softmax1 t = Some y" "shape t = [n, m]"
  shows "shape y = [n, m]"
    and "k < n * m \<Longrightarrow> data y ! k = exp (data t ! k) / (\<Sum>j<m. exp (data t ! (k div m * m + j)))"
  using assms by (auto simp: Softmax1_def sum_list_upt)

lemma exp_sum_pos: "0 < (m::nat) \<Longrightarrow> 0 < (\<Sum>j<m. exp (f j :: real))"
  by (rule sum_pos) auto

lemma Softmax1_row:
  assumes "Softmax1 t = Some y" "shape y = [n, m]" "i < n" "0 < m"
  shows "(\<Sum>j<m. at2 y i j) = 1" "j < m \<Longrightarrow> 0 < at2 y i j"
proof -
  from Softmax1_rank[OF assms(1)] obtain n' m' where s: "shape t = [n', m']" by blast
  from Softmax1_SomeD(1)[OF assms(1) s] assms(2) have [simp]: "n' = n" "m' = m" by simp_all
  have d: "k < n * m \<Longrightarrow> data y ! k = exp (data t ! k) / (\<Sum>j<m. exp (data t ! (k div m * m + j)))" for k
    using Softmax1_SomeD(2)[OF assms(1) s, of k] by simp
  have lt: "i * m + j < n * m" if "j < m" for j
  proof -
    have "i * m + j < i * m + m" using that by simp
    also have "\<dots> = Suc i * m" by simp
    also have "\<dots> \<le> n * m" using assms(3) by (intro mult_le_mono1) simp
    finally show ?thesis .
  qed
  have e: "at2 y i j = exp (data t ! (i * m + j)) / (\<Sum>j'<m. exp (data t ! (i * m + j')))" if "j < m" for j
    using d[OF lt[OF that, simplified]] that assms(2) by (simp add: at2_def)
  let ?S = "\<Sum>j'<m. exp (data t ! (i * m + j'))"
  have pos: "0 < ?S" using assms(4) by (rule exp_sum_pos)
  have "(\<Sum>j<m. at2 y i j) = (\<Sum>j<m. exp (data t ! (i * m + j)) / ?S)"
    by (rule sum.cong) (simp_all add: e)
  also have "\<dots> = ?S / ?S" by (rule sum_divide_distrib[symmetric])
  also have "\<dots> = 1" using pos by simp
  finally show "(\<Sum>j<m. at2 y i j) = 1" .
  show "0 < at2 y i j" if "j < m" using e[OF that] pos by simp
qed

lemma idx_lt: "i < n \<Longrightarrow> j < m \<Longrightarrow> i * m + j < n * (m::nat)"
proof -
  assume a: "i < n" "j < m"
  have "i * m + j < i * m + m" using a by simp
  also have "\<dots> = Suc i * m" by simp
  also have "\<dots> \<le> n * m" using a by (intro mult_le_mono1) simp
  finally show ?thesis .
qed

lemma transpose01_matrix:
  assumes "transpose01 t = Some p" "shape t = [n, m]"
  shows "shape p = [m, n]"
    and "j < m \<Longrightarrow> i < n \<Longrightarrow> data p ! (j * n + i) = data t ! (i * m + j)"
proof -
  from assms have p: "p = tabulate [m, n] (\<lambda>k. data t ! (k mod n * m + k div n))"
    by (simp add: transpose01_def)
  show "shape p = [m, n]" by (simp add: p)
  show "data p ! (j * n + i) = data t ! (i * m + j)" if "j < m" "i < n"
    using that idx_lt[of j m i n] by (simp add: p)
qed

lemma Permute10_rank:
  assumes "Permute10 t = Some p"
  shows "\<exists>n m. shape t = [n, m]"
proof -
  from assms have "length (shape t) = 2" by (simp add: Permute10_def split: if_splits)
  then show ?thesis
    by (cases "shape t") (auto simp: length_Suc_conv)
qed

lemma Permute10_SomeD:
  assumes "Permute10 t = Some p" "shape t = [n, m]"
  shows "shape p = [m, n]"
    and "j < m \<Longrightarrow> i < n \<Longrightarrow> data p ! (j * n + i) = data t ! (i * m + j)"
  using assms transpose01_matrix[of t p n m] by (auto simp: Permute10_def split: if_splits)

lemma Softmax0_SomeD:
  assumes "Softmax0 t = Some y" "shape t = [n, m]"
  shows "shape y = [n, m]"
    and "i < n \<Longrightarrow> j < m \<Longrightarrow>
           data y ! (i * m + j) = exp (data t ! (i * m + j)) / (\<Sum>i'<n. exp (data t ! (i' * m + j)))"
proof -
  from assms have y: "y = tabulate [n, m]
      (\<lambda>k. exp (data t ! k) / (\<Sum>i\<leftarrow>[0..<n]. exp (data t ! (i * m + k mod m))))"
    by (simp add: Softmax0_def)
  show "shape y = [n, m]" by (simp add: y)
  show "data y ! (i * m + j) = exp (data t ! (i * m + j)) / (\<Sum>i'<n. exp (data t ! (i' * m + j)))"
    if "i < n" "j < m"
    using that idx_lt[of i n j m] by (simp add: y sum_list_upt)
qed

lemma bmm_SomeD:
  assumes "bmm x y = Some z" "shape x = [b, n, m]"
  shows "\<exists>p. shape y = [b, m, p] \<and> shape z = [b, n, p]"
  using assms by (auto simp: bmm_def split: list.splits if_splits)

lemma bidx_same: "k < n * m \<Longrightarrow> bidx n m (k div m) (k mod m) = k"
proof -
  assume k: "k < n * m"
  then have m: "0 < m" by (cases m) simp_all
  show ?thesis
  proof (cases "n = 1")
    case True
    with k have "k < m" by simp
    then show ?thesis using True by (simp add: bidx_def)
  next
    case False
    then show ?thesis using m by (simp add: bidx_def)
  qed
qed

lemma add_same_shape:
  assumes "shape x = [n, m]" "shape y = [n, m]"
  shows "add x y = Some (tabulate [n, m] (\<lambda>k. data x ! bidx n m (k div m) (k mod m)
                                             + data y ! bidx n m (k div m) (k mod m)))"
  using assms by (simp add: add_def bdim_def)

lemma add_SomeD:
  assumes "add x y = Some z" "shape x = [n, m]" "shape y = [n, m]"
  shows "shape z = [n, m]"
    and "k < n * m \<Longrightarrow> data z ! k = data x ! k + data y ! k"
  using assms add_same_shape[OF assms(2,3)] by (auto simp: bidx_same)

lemma cat1_SomeD:
  assumes "cat1 x y = Some z"
  shows "\<exists>n a b. shape x = [n, a] \<and> shape y = [n, b] \<and> shape z = [n, a + b]"
  using assms by (auto simp: cat1_def split: list.splits if_splits)

lemma Embedding_SomeD:
  assumes "Embedding E x = Some y"
  shows "shape y = shape x @ [embedding_dim E]"
  using assms by (auto simp: Embedding_def split: if_splits)

lemma BiLSTM_SomeD:
  assumes "BiLSTM L x = Some (out, h, c)"
  shows "\<exists>T B. shape x = [T, B, input_size L] \<and> 0 < T
           \<and> shape out = [T, B, 2 * lstm_hidden_size L]
           \<and> shape h = [2, B, lstm_hidden_size L] \<and> shape c = [2, B, lstm_hidden_size L]"
  using assms by (auto simp: BiLSTM_def Let_def split: list.splits if_splits)

lemma expand3_SomeD:
  assumes "expand3 a' b' c' t = Some e"
  shows "shape e = [a', b', c']"
    and "\<exists>a b c. shape t = [a, b, c] \<and> expandable a a' \<and> expandable b b' \<and> expandable c c'"
  using assms by (auto simp: expand3_def split: list.splits if_splits)

lemma ReLU_nonneg: "v \<in> set (data (ReLU t)) \<Longrightarrow> 0 \<le> v"
  by (auto simp: ReLU_def)

lemma sum_nth_append:
  "n \<le> length xs \<Longrightarrow> (\<Sum>j<n. f ((xs @ ys) ! j)) = (\<Sum>j<n. f (xs ! j))"
  by (rule sum.cong) (simp_all add: nth_append)

lemma at2_data: "shape t = [n, m] \<Longrightarrow> at2 t i j = data t ! (i * m + j)"
  by (simp add: at2_def)

lemma View_Some:
  assumes "shape t = s" "prod_list s = n * k" "0 < k"
  shows "\<exists>v. View k t = Some v \<and> shape v = [n, k]"
  using assms by (simp add: View_def numel_def)

lemma Linear_Some:
  assumes "shape t = s @ [in_features L]"
  shows "\<exists>y. Linear L t = Some y \<and> shape y = s @ [out_features L]"
  using assms by (simp add: Linear_def)

lemma Unsqueeze0_Some: "\<exists>u. Unsqueeze 0 t = Some u \<and> shape u = 1 # shape t"
  by (simp add: Unsqueeze_def)

lemma Unsqueeze1_Some:
  assumes "shape t = [a, b]"
  shows "\<exists>u. Unsqueeze 1 t = Some u \<and> shape u = [a, 1, b]"
  using assms by (simp add: Unsqueeze_def)

lemma transpose01_Some:
  assumes "shape t = a # b # rest"
  shows "\<exists>p. transpose01 t = Some p \<and> shape p = b # a # rest"
  using assms by (simp add: transpose01_def Let_def)

lemma Permute10_Some:
  assumes "shape t = [a, b]"
  shows "\<exists>p. Permute10 t = Some p \<and> shape p = [b, a]"
  using assms transpose01_Some[OF assms] by (simp add: Permute10_def)

lemma permute102_Some:
  assumes "shape t = [a, b, c]"
  shows "\<exists>p. permute102 t = Some p \<and> shape p = [b, a, c]"
  using assms transpose01_Some[OF assms] by (simp add: permute102_def)

lemma expand3_Some:
  assumes "shape t = [1, b, c]"
  shows "\<exists>e. expand3 a b c t = Some e \<and> shape e = [a, b, c]"
  using assms by (simp add: expand3_def expandable_def)

lemma add_Some:
  assumes "shape x = [n, m]" "shape y = [n, m]"
  shows "\<exists>z. add x y = Some z \<and> shape z = [n, m]"
  using add_same_shape[OF assms] by simp

lemma Softmax0_Some:
  assumes "shape t = [n, m]"
  shows "\<exists>y. Softmax0 t = Some y \<and> shape y = [n, m]"
  using assms by (simp add: Softmax0_def)

lemma Softmax1_Some:
  assumes "shape t = [n, m]"
  shows "\<exists>y. Softmax1 t = Some y \<and> shape y = [n, m]"
  using assms by (simp add: Softmax1_def)

lemma bmm_Some:
  assumes "shape x = [b, n, m]" "shape y = [b, m, p]"
  shows "\<exists>z. bmm x y = Some z \<and> shape z = [b, n, p]"
  using assms by (simp add: bmm_def)

lemma cat1_Some:
  assumes "shape x = [n, a]" "shape y = [n, b]"
  shows "\<exists>z. cat1 x y = Some z \<and> shape z = [n, a + b]"
  using assms by (simp add: cat1_def)

lemma Embedding_Some:
  assumes "list_all (\<lambda>i. 0 \<le> i \<and> i < int (num_embeddings M)) (data x)"
  shows "\<exists>y. Embedding M x = Some y \<and> shape y = shape x @ [embedding_dim M]"
  using assms by (simp add: Embedding_def)

lemma LSTM_Some:
  assumes "shape x = [T, B, input_size L]" "0 < T"
    "shape (fst hc) = [1, B, lstm_hidden_size L]" "shape (snd hc) = [1, B, lstm_hidden_size L]"
  shows "\<exists>out h c. LSTM L x hc = Some (out, h, c) \<and> shape out = [T, B, lstm_hidden_size L]
           \<and> shape h = [1, B, lstm_hidden_size L] \<and> shape c = [1, B, lstm_hidden_size L]"
  using assms by (simp add: LSTM_def Let_def)

lemma BiLSTM_Some:
  assumes "shape x = [T, B, input_size L]" "0 < T"
  shows "\<exists>out h c. BiLSTM L x = Some (out, h, c) \<and> shape out = [T, B, 2 * lstm_hidden_size L]
           \<and> shape h = [2, B, lstm_hidden_size L] \<and> shape c = [2, B, lstm_hidden_size L]"
  using assms by (simp add: BiLSTM_def Let_def)

lemma index_row_Some:
  assumes "shape t = [n, m]" "i < n" "wf t" "list_all P (data t)"
  shows "\<exists>r. index_row t i = Some r \<and> shape r = [m] \<and> list_all P (data r)"
proof -
  have r: "index_row t i = Some (tabulate [m] (\<lambda>k. data t ! (i * m + k)))"
    using assms(1,2) by (simp add: index_row_def)
  have len: "length (data t) = n * m" using assms(1,3) by (simp add: wf_def)
  have "P (data t ! (i * m + k))" if "k < m" for k
  proof -
    have "i * m + k < length (data t)" using idx_lt[OF assms(2) that] len by simp
    with assms(4) show ?thesis by (simp add: list_all_length)
  qed
  then have "list_all P (data (tabulate [m] (\<lambda>k. data t ! (i * m + k))))"
    by (simp add: list_all_length)
  with r show ?thesis by simp
qed

lemma one_hot_has_zero:
  assumes "one_hot v" "2 \<le> length v"
  shows "\<exists>j<length v. v ! j = 0"
proof -
  from assms(1) obtain i where i: "i < length v" and v: "v = (replicate (length v) 0)[i := 1]"
    by (auto simp: one_hot_def list_ex_iff)
  define j where "j = (if i = 0 then 1 else 0 :: nat)"
  have j: "j < length v" "j \<noteq> i" using assms(2) by (auto simp: j_def)
  have "((replicate (length v) (0::real))[i := 1]) ! j = 0" using j by simp
  with v have "v ! j = 0" by simp
  with j(1) show ?thesis by blast
qed

lemma positive_not_one_hot:
  assumes "2 \<le> length v" "\<And>j. j < length v \<Longrightarrow> 0 < v ! j"
  shows "\<not> one_hot v"
proof
  assume "one_hot v"
  from one_hot_has_zero[OF this assms(1)] obtain j where "j < length v" "v ! j = 0" by blast
  with assms(2)[of j] show False by simp
qed

section \<open>Facts about the modules\<close>

lemma Attention_attention_SomeD:
  assumes "Attention_attention A x = Some u"
  shows "\<exists>sc n. Attention_scores A x = Some sc \<and> numel sc = n * att_batch_size A
           \<and> 0 < att_batch_size A \<and> shape u = [att_batch_size A, 1, n]
           \<and> (\<forall>b<att_batch_size A. \<forall>s<n. data u ! (b * n + s)
                 = exp (data sc ! (s * att_batch_size A + b))
                   / (\<Sum>s'<n. exp (data sc ! (s' * att_batch_size A + b))))"
proof -
  let ?bs = "att_batch_size A"
  from assms obtain sc v sm p where
    sc: "Attention_scores A x = Some sc" and v: "View ?bs sc = Some v"
    and sm: "Softmax0 v = Some sm" and p: "Permute10 sm = Some p" and u: "Unsqueeze 1 p = Some u"
    by (auto simp: Attention_attention_def bind_eq_Some_conv)
  define n where "n = numel sc div ?bs"
  note vD = View_SomeD[OF v]
  have sv: "shape v = [n, ?bs]" using vD(1) by (simp add: n_def)
  have ne: "numel sc = n * ?bs" using vD(4) div_mult_mod_eq[of "numel sc" ?bs] by (simp add: n_def)
  note smD = Softmax0_SomeD[OF sm sv]
  note pD = Permute10_SomeD[OF p smD(1)]
  have su: "shape u = [?bs, 1, n]" using Unsqueeze_SomeD(1)[OF u] pD(1) by simp
  have du: "data u = data p" using Unsqueeze_SomeD(2)[OF u] .
  have "data u ! (b * n + s) = exp (data sc ! (s * ?bs + b)) / (\<Sum>s'<n. exp (data sc ! (s' * ?bs + b)))"
    if "b < ?bs" "s < n" for b s
    using pD(2)[OF that] smD(2)[OF that(2,1)] by (simp add: du vD(2))
  with sc ne vD(3) su show ?thesis by blast
qed

lemma Attention_forward_SomeD:
  assumes "Attention_forward A hidden eo ef cov = Some (ctx, att, cov')"
    and "shape eo = [B, S, W]"
  shows "\<exists>x sc. B = att_batch_size A \<and> 0 < S \<and> 0 < B
           \<and> Attention_summed A hidden eo ef cov = Some x \<and> Attention_scores A x = Some sc
           \<and> numel sc = S * B
           \<and> shape att = [S, B]
           \<and> (\<forall>s<S. \<forall>b<B. data att ! (s * B + b)
                 = exp (data sc ! (s * B + b)) / (\<Sum>s'<S. exp (data sc ! (s' * B + b))))
           \<and> add cov att = Some cov'
           \<and> shape ctx = [B * W div (2 * att_hidden_size A), 2 * att_hidden_size A]
           \<and> (out_features (att_features A) = W \<or> out_features (att_features A) = 1)"
proof -
  let ?bs = "att_batch_size A"
  from assms obtain df1 df2 df3 cf a1 x u c1 v where
    df1: "Attention_features A hidden = Some df1" and df2: "expand3 S B W df1 = Some df2"
    and df3: "View W (contiguous df2) = Some df3" and cf: "Attention_coverage A cov = Some cf"
    and a1: "add ef df3 = Some a1" and x: "add a1 cf = Some x"
    and u: "Attention_attention A x = Some u" and c1: "bmm u eo = Some c1"
    and ctx: "View (2 * att_hidden_size A) c1 = Some ctx" and v: "View S u = Some v"
    and att: "Permute10 v = Some att" and cov': "add cov att = Some cov'"
    by (auto simp: Attention_forward_def bind_eq_Some_conv)
  have summed: "Attention_summed A hidden eo ef cov = Some x"
    using assms(2) df1 df2 df3 cf a1 x by (simp add: Attention_summed_def)
  from Attention_attention_SomeD[OF u] obtain sc n where
    sc: "Attention_scores A x = Some sc" and ne: "numel sc = n * ?bs" and bs: "0 < ?bs"
    and su: "shape u = [?bs, 1, n]"
    and du: "\<And>b s. b < ?bs \<Longrightarrow> s < n \<Longrightarrow> data u ! (b * n + s)
                 = exp (data sc ! (s * ?bs + b)) / (\<Sum>s'<n. exp (data sc ! (s' * ?bs + b)))"
    by blast
  from bmm_SomeD[OF c1 su] assms(2) have B: "B = ?bs" and S: "S = n" and sc1: "shape c1 = [B, 1, W]"
    by auto
  note vD = View_SomeD[OF v]
  have S0: "0 < S" using vD(3) .
  have sv: "shape v = [B, S]" using vD(1) su S0 by (simp add: numel_def B S)
  note aD = Permute10_SomeD[OF att sv]
  have da: "data att ! (s * B + b) = exp (data sc ! (s * B + b)) / (\<Sum>s'<S. exp (data sc ! (s' * B + b)))"
    if "s < S" "b < B" for s b
    using aD(2)[OF that] du[of b s] that by (simp add: vD(2) B S)
  have sctx: "shape ctx = [B * W div (2 * att_hidden_size A), 2 * att_hidden_size A]"
    using View_SomeD(1)[OF ctx] sc1 by (simp add: numel_def)
  from df1 obtain l where l: "Linear (att_features A) hidden = Some l" and ul: "Unsqueeze 0 l = Some df1"
    by (auto simp: Attention_features_def bind_eq_Some_conv)
  have "shape df1 = 1 # butlast (shape hidden) @ [out_features (att_features A)]"
    using Unsqueeze_SomeD(1)[OF ul] Linear_SomeD(1)[OF l] by simp
  with expand3_SomeD(2)[OF df2] have W: "out_features (att_features A) = W \<or> out_features (att_features A) = 1"
    by (auto simp: expandable_def)
  from B S0 bs summed sc ne aD(1) da cov' sctx W show ?thesis
    by (auto simp: B S mult.commute)
qed

lemma Decoder_out_SomeD:
  assumes "Decoder_out D y = Some vd" "shape y = [n, k]"
  shows "shape vd = [n, out_features (dec_out2 D)]"
    and "i < n \<Longrightarrow> 0 < out_features (dec_out2 D) \<Longrightarrow> (\<Sum>j<out_features (dec_out2 D). at2 vd i j) = 1"
    and "i < n \<Longrightarrow> j < out_features (dec_out2 D) \<Longrightarrow> 0 < at2 vd i j"
proof -
  from assms(1) obtain y1 y2 where y1: "Linear (dec_out1 D) y = Some y1"
    and y2: "Linear (dec_out2 D) y1 = Some y2" and vd: "Softmax1 y2 = Some vd"
    by (auto simp: Decoder_out_def bind_eq_Some_conv)
  have s2: "shape y2 = [n, out_features (dec_out2 D)]"
    using Linear_SomeD(1)[OF y1] Linear_SomeD(1)[OF y2] assms(2) by simp
  show s: "shape vd = [n, out_features (dec_out2 D)]"
    using Softmax1_SomeD(1)[OF vd s2] .
  show "(\<Sum>j<out_features (dec_out2 D). at2 vd i j) = 1" if "i < n" "0 < out_features (dec_out2 D)"
    using Softmax1_row(1)[OF vd s that] .
  show "0 < at2 vd i j" if "i < n" "j < out_features (dec_out2 D)"
    using Softmax1_row(2)[OF vd s that(1) _ that(2)] that(2) by simp
qed

lemma Decoder_forward_SomeD:
  assumes "Decoder_forward D x_in hid eo ef ctx cov = Some (vd, dh, ctx', att, cov')"
  shows "\<exists>y n a b. Attention_forward (dec_attention D) dh eo ef cov = Some (ctx', att, cov')
           \<and> Decoder_out D y = Some vd \<and> shape ctx' = [n, b] \<and> shape y = [n, a + b]"
proof -
  from assms obtain x1 x2 x3 out h c h' c' xv y where
    "Embedding (dec_embedding D) x_in = Some x1" "cat1 ctx x1 = Some x2"
    "Decoder_context D x2 = Some x3" "LSTM (dec_lstm D) x3 hid = Some (out, h, c)"
    "View (dec_hidden_size D) h = Some h'" "View (dec_hidden_size D) c = Some c'"
    "cat1 h' c' = Some dh"
    and att: "Attention_forward (dec_attention D) dh eo ef cov = Some (ctx', att, cov')"
    and xv: "View (dec_hidden_size D) out = Some xv" and y: "cat1 xv ctx' = Some y"
    and vd: "Decoder_out D y = Some vd"
    by (auto simp: Decoder_forward_def bind_eq_Some_conv)
  from cat1_SomeD[OF y] att vd show ?thesis by blast
qed

lemma Encoder_reduce_hidden_nonneg:
  assumes "Encoder_reduce_hidden E x = Some y" "v \<in> set (data y)"
  shows "0 \<le> v"
proof -
  from assms(1) obtain l where "Unsqueeze 0 (ReLU l) = Some y"
    by (auto simp: Encoder_reduce_hidden_def bind_eq_Some_conv)
  from Unsqueeze_SomeD(2)[OF this] assms(2) show ?thesis by (simp add: ReLU_nonneg)
qed

lemma Encoder_reduce_cell_nonneg:
  assumes "Encoder_reduce_cell E x = Some y" "v \<in> set (data y)"
  shows "0 \<le> v"
proof -
  from assms(1) obtain l where "Unsqueeze 0 (ReLU l) = Some y"
    by (auto simp: Encoder_reduce_cell_def bind_eq_Some_conv)
  from Unsqueeze_SomeD(2)[OF this] assms(2) show ?thesis by (simp add: ReLU_nonneg)
qed

lemma Encoder_forward_SomeD:
  assumes "Encoder_forward E x_in = Some (eo, ef, (h, c))"
  shows "\<exists>T B h' c'. shape x_in = [T, B] \<and> 0 < T
           \<and> shape eo = [B, T, 2 * lstm_hidden_size (enc_lstm E)]
           \<and> Encoder_reduce_hidden E h' = Some h \<and> Encoder_reduce_cell E c' = Some c"
proof -
  from assms obtain x out hn cn hn' cn' where
    x: "Embedding (enc_embedding E) x_in = Some x"
    and l: "BiLSTM (enc_lstm E) x = Some (out, hn, cn)"
    and eo: "permute102 (contiguous out) = Some eo"
    and h: "Encoder_reduce_hidden E (contiguous hn') = Some h"
    and c: "Encoder_reduce_cell E (contiguous cn') = Some c"
    by (auto simp: Encoder_forward_def bind_eq_Some_conv)
  from BiLSTM_SomeD[OF l] obtain T B where sx: "shape x = [T, B, input_size (enc_lstm E)]"
    and T: "0 < T" and so: "shape out = [T, B, 2 * lstm_hidden_size (enc_lstm E)]"
    by blast
  from Embedding_SomeD[OF x] sx have sxi: "shape x_in = [T, B]"
    by (cases "shape x_in" rule: rev_cases) auto
  from eo so have "shape eo = [B, T, 2 * lstm_hidden_size (enc_lstm E)]"
    by (auto simp: permute102_def contiguous_def transpose01_def Let_def)
  with sxi T h c show ?thesis by blast
qed

lemma Attention_forward_rank:
  assumes "Attention_forward A hidden eo ef cov = Some r"
  shows "\<exists>B S W. shape eo = [B, S, W]"
  using assms by (auto simp: Attention_forward_def split: list.splits)

lemma Decoder_forward_shapes:
  assumes init: "Decoder_init V B E H D" and H: "0 < H"
    and dec: "Decoder_forward D x_in hid eo ef ctx cov = Some (vd, dh, ctx', att, cov')"
  shows "shape vd = [B, V]" "shape ctx' = [B, 2 * H]"
    and "Decoder_out D y = Some vd' \<Longrightarrow> shape y = [B, k] \<Longrightarrow> shape vd' = [B, V]"
proof -
  let ?A = "dec_attention D"
  from init have A: "att_hidden_size ?A = H" "att_batch_size ?A = B"
    "out_features (att_features ?A) = H * 2" and V: "out_features (dec_out2 D) = V"
    by (simp_all add: Decoder_init_def Attention_init_def Linear_init_def)
  from Decoder_forward_SomeD[OF dec] obtain y n a b where
    af: "Attention_forward ?A dh eo ef cov = Some (ctx', att, cov')"
    and out: "Decoder_out D y = Some vd" and sc: "shape ctx' = [n, b]" and sy: "shape y = [n, a + b]"
    by blast
  from Attention_forward_rank[OF af] obtain B' S W where seo: "shape eo = [B', S, W]" by blast
  from Attention_forward_SomeD[OF af seo] have B': "B' = B"
    and sctx: "shape ctx' = [B' * W div (2 * H), 2 * H]"
    and W: "H * 2 = W \<or> H * 2 = 1"
    by (auto simp: A)
  from W H have W': "W = 2 * H" by presburger
  show c: "shape ctx' = [B, 2 * H]" using sctx H by (simp add: B' W')
  with sc have "n = B" by simp
  with Decoder_out_SomeD(1)[OF out sy] show "shape vd = [B, V]" by (simp add: V)
  show "shape vd' = [B, V]" if "Decoder_out D y = Some vd'" "shape y = [B, k]" for y vd' k
    using Decoder_out_SomeD(1)[OF that] by (simp add: V)
qed

lemma Attention_forward_weights:
  assumes "Attention_forward A hidden eo ef cov = Some (ctx, att, cov')" and "shape eo = [B, S, W]"
  shows "shape att = [S, B]"
    and "s < S \<Longrightarrow> b < B \<Longrightarrow> 0 < at2 att s b"
    and "b < B \<Longrightarrow> (\<Sum>s<S. at2 att s b) = 1"
proof -
  from Attention_forward_SomeD[OF assms] obtain x sc where
    S0: "0 < S" and satt: "shape att = [S, B]"
    and datt: "\<And>s b. s < S \<Longrightarrow> b < B \<Longrightarrow> data att ! (s * B + b)
                 = exp (data sc ! (s * B + b)) / (\<Sum>s'<S. exp (data sc ! (s' * B + b)))"
    by blast
  show "shape att = [S, B]" by (rule satt)
  have pos: "0 < (\<Sum>s'<S. exp (data sc ! (s' * B + b)))" for b
    using S0 by (rule exp_sum_pos)
  show "0 < at2 att s b" if "s < S" "b < B" for s
    using datt[OF that] pos[of b] by (simp add: at2_data[OF satt])
  show "(\<Sum>s<S. at2 att s b) = 1" if "b < B"
  proof -
    let ?T = "\<Sum>s'<S. exp (data sc ! (s' * B + b))"
    have "(\<Sum>s<S. at2 att s b) = (\<Sum>s<S. exp (data sc ! (s * B + b)) / ?T)"
      by (rule sum.cong) (simp_all add: at2_data[OF satt] datt that)
    also have "\<dots> = ?T / ?T" by (rule sum_divide_distrib[symmetric])
    also have "\<dots> = 1" using pos[of b] by simp
    finally show ?thesis .
  qed
qed


lemma Encoder_forward_Some:
  assumes init: "Encoder_init V E H Enc" and H: "0 < H"
    and st: "shape texts = [S, B]" and S: "0 < S"
    and ids: "list_all (\<lambda>i. 0 \<le> i \<and> i < int V) (data texts)"
  shows "\<exists>eo ef h c. Encoder_forward Enc texts = Some (eo, ef, (h, c))
           \<and> shape eo = [B, S, 2 * H] \<and> shape ef = [S * B, 2 * H]
           \<and> shape h = [1, B, H] \<and> shape c = [1, B, H]"
proof -
  from init have hs: "enc_hidden_size Enc = H"
    and emb: "num_embeddings (enc_embedding Enc) = V" "embedding_dim (enc_embedding Enc) = E"
    and lstm: "input_size (enc_lstm Enc) = E" "lstm_hidden_size (enc_lstm Enc) = H"
    and lin: "in_features (enc_linear Enc) = H * 2" "out_features (enc_linear Enc) = H * 2"
    and rh: "in_features (enc_reduce_hidden Enc) = H * 2" "out_features (enc_reduce_hidden Enc) = H"
    and rc: "in_features (enc_reduce_cell Enc) = H * 2" "out_features (enc_reduce_cell Enc) = H"
    by (simp_all add: Encoder_init_def Embedding_init_def BiLSTM_init_def LSTM_init_def Linear_init_def)
  from Embedding_Some[of "enc_embedding Enc" texts] ids obtain x where
    x: "Embedding (enc_embedding Enc) texts = Some x" and sx: "shape x = [S, B, E]"
    by (auto simp: emb st)
  from BiLSTM_Some[of x S B "enc_lstm Enc"] sx S obtain out hn cn where
    l: "BiLSTM (enc_lstm Enc) x = Some (out, hn, cn)" and so: "shape out = [S, B, 2 * H]"
    and shn: "shape hn = [2, B, H]" and scn: "shape cn = [2, B, H]"
    by (auto simp: lstm)
  from View_Some[OF so, of "S * B" "2 * H"] H obtain v where
    v: "View (2 * H) out = Some v" and sv: "shape v = [S * B, 2 * H]"
    by auto
  from Linear_Some[of v "[S * B]" "enc_linear Enc"] sv obtain ef where
    ef: "Linear (enc_linear Enc) v = Some ef" and sef: "shape ef = [S * B, 2 * H]"
    by (auto simp: lin mult.commute)
  have xo: "Encoder_linear Enc (contiguous out) = Some ef"
    by (simp add: Encoder_linear_def contiguous_def hs v ef)
  from permute102_Some[OF so] obtain eo where
    eo: "permute102 (contiguous out) = Some eo" and seo: "shape eo = [B, S, 2 * H]"
    by (auto simp: contiguous_def)
  have red: "\<exists>r. (View (H * 2) t \<bind> (\<lambda>x. Linear R x \<bind> (\<lambda>x. Unsqueeze 0 (ReLU x)))) = Some r
               \<and> shape r = [1, B, H]"
    if t: "shape t = [B, 2, H]" and R: "in_features R = H * 2" "out_features R = H" for t R
  proof -
    from View_Some[OF t, of B "H * 2"] H obtain v where
      v: "View (H * 2) t = Some v" and sv: "shape v = [B, H * 2]"
      by auto
    from Linear_Some[of v "[B]" R] sv obtain y where
      y: "Linear R v = Some y" and sy: "shape y = [B, H]"
      by (auto simp: R)
    from Unsqueeze0_Some[of "ReLU y"] obtain u where
      u: "Unsqueeze 0 (ReLU y) = Some u" and su: "shape u = [1, B, H]"
      by (auto simp: ReLU_def sy)
    show ?thesis by (simp add: v y u su)
  qed
  from transpose01_Some[OF shn] obtain hn' where
    hn': "transpose01 hn = Some hn'" and shn': "shape hn' = [B, 2, H]" by auto
  from transpose01_Some[OF scn] obtain cn' where
    cn': "transpose01 cn = Some cn'" and scn': "shape cn' = [B, 2, H]" by auto
  from red[OF shn' rh] obtain h where
    h: "Encoder_reduce_hidden Enc (contiguous hn') = Some h" and sh: "shape h = [1, B, H]"
    by (auto simp: Encoder_reduce_hidden_def contiguous_def hs)
  from red[OF scn' rc] obtain c where
    c: "Encoder_reduce_cell Enc (contiguous cn') = Some c" and sc: "shape c = [1, B, H]"
    by (auto simp: Encoder_reduce_cell_def contiguous_def hs)
  have "Encoder_forward Enc texts = Some (eo, ef, (h, c))"
    by (simp add: Encoder_forward_def x l xo eo hn' h cn' c)
  with seo sef sh sc show ?thesis by blast
qed

lemma Attention_forward_Some:
  assumes init: "Attention_init H B A" and H: "0 < H" and B: "0 < B" and S: "0 < S"
    and sh: "shape hidden = [B, 2 * H]" and seo: "shape eo = [B, S, 2 * H]"
    and sef: "shape ef = [S * B, 2 * H]" and sc: "shape cov = [S, B]"
  shows "\<exists>ctx att cov'. Attention_forward A hidden eo ef cov = Some (ctx, att, cov')
           \<and> shape ctx = [B, 2 * H] \<and> shape cov' = [S, B]"
proof -
  from init have hs: "att_hidden_size A = H" and bs: "att_batch_size A = B"
    and f: "in_features (att_features A) = H * 2" "out_features (att_features A) = H * 2"
    and cv: "in_features (att_coverage A) = 1" "out_features (att_coverage A) = H * 2"
    and at: "in_features (att_attention A) = H * 2" "out_features (att_attention A) = 1"
    by (simp_all add: Attention_init_def Linear_init_def)
  from Linear_Some[of hidden "[B]" "att_features A"] sh obtain l where
    l: "Linear (att_features A) hidden = Some l" and sl: "shape l = [B, 2 * H]"
    by (auto simp: f mult.commute)
  from Unsqueeze0_Some[of l] obtain df1 where
    u: "Unsqueeze 0 l = Some df1" and sdf1: "shape df1 = [1, B, 2 * H]"
    by (auto simp: sl)
  have df1: "Attention_features A hidden = Some df1"
    by (simp add: Attention_features_def l u)
  from expand3_Some[OF sdf1, of S] obtain df2 where
    df2: "expand3 S B (2 * H) df1 = Some df2" and sdf2: "shape df2 = [S, B, 2 * H]"
    by auto
  from View_Some[OF sdf2, of "S * B" "2 * H"] H obtain df3 where
    df3: "View (2 * H) (contiguous df2) = Some df3" and sdf3: "shape df3 = [S * B, 2 * H]"
    by (auto simp: contiguous_def)
  from View_Some[OF sc, of "S * B" 1] obtain c1 where
    c1: "View 1 cov = Some c1" and sc1: "shape c1 = [S * B, 1]"
    by auto
  from Linear_Some[of c1 "[S * B]" "att_coverage A"] sc1 obtain cf where
    cfl: "Linear (att_coverage A) c1 = Some cf" and scf: "shape cf = [S * B, 2 * H]"
    by (auto simp: cv mult.commute)
  have cf: "Attention_coverage A cov = Some cf"
    by (simp add: Attention_coverage_def c1 cfl del: One_nat_def)
  from add_Some[OF sef sdf3] obtain a1 where
    a1: "add ef df3 = Some a1" and sa1: "shape a1 = [S * B, 2 * H]" by auto
  from add_Some[OF sa1 scf] obtain x where
    x: "add a1 cf = Some x" and sx: "shape x = [S * B, 2 * H]" by auto
  from Linear_Some[of "Tanh x" "[S * B]" "att_attention A"] sx obtain sco where
    sco: "Attention_scores A x = Some sco" and ssco: "shape sco = [S * B, 1]"
    by (auto simp: at Tanh_def Attention_scores_def mult.commute)
  from View_Some[OF ssco, of S B] B obtain v where
    v: "View B sco = Some v" and sv: "shape v = [S, B]" by auto
  from Softmax0_Some[OF sv] obtain sm where
    sm: "Softmax0 v = Some sm" and ssm: "shape sm = [S, B]" by auto
  from Permute10_Some[OF ssm] obtain p where
    p: "Permute10 sm = Some p" and sp: "shape p = [B, S]" by auto
  from Unsqueeze1_Some[OF sp] obtain w where
    w: "Unsqueeze 1 p = Some w" and sw: "shape w = [B, 1, S]" by auto
  have aa: "Attention_attention A x = Some w"
    by (simp add: Attention_attention_def sco bs v sm p w del: One_nat_def)
  from bmm_Some[OF sw seo] obtain cx where
    cx: "bmm w eo = Some cx" and scx: "shape cx = [B, 1, 2 * H]" by auto
  from View_Some[OF scx, of B "2 * H"] H obtain ctx where
    ctx: "View (2 * H) cx = Some ctx" and sctx: "shape ctx = [B, 2 * H]" by auto
  from View_Some[OF sw, of B S] S obtain w2 where
    w2: "View S w = Some w2" and sw2: "shape w2 = [B, S]" by auto
  from Permute10_Some[OF sw2] obtain att where
    att: "Permute10 w2 = Some att" and satt: "shape att = [S, B]" by auto
  from add_Some[OF sc satt] obtain cov' where
    cov': "add cov att = Some cov'" and scov': "shape cov' = [S, B]" by auto
  have "Attention_forward A hidden eo ef cov = Some (ctx, att, cov')"
    by (simp add: Attention_forward_def seo df1 df2 df3 cf a1 x aa cx hs ctx w2 att cov')
  with sctx scov' show ?thesis by blast
qed

lemma Decoder_forward_Some:
  assumes init: "Decoder_init V B E H D" and H: "0 < H" and B: "0 < B" and S: "0 < S"
    and sx: "shape x_in = [B]" and ids: "list_all (\<lambda>i. 0 \<le> i \<and> i < int V) (data x_in)"
    and shid: "shape (fst hid) = [1, B, H]" "shape (snd hid) = [1, B, H]"
    and seo: "shape eo = [B, S, 2 * H]" and sef: "shape ef = [S * B, 2 * H]"
    and sctx: "shape ctx = [B, 2 * H]" and scov: "shape cov = [S, B]"
  shows "\<exists>vd dh ctx' att cov'. Decoder_forward D x_in hid eo ef ctx cov = Some (vd, dh, ctx', att, cov')
           \<and> shape ctx' = [B, 2 * H] \<and> shape cov' = [S, B]"
proof -
  from init have hs: "dec_hidden_size D = H" and A: "Attention_init H B (dec_attention D)"
    and emb: "num_embeddings (dec_embedding D) = V" "embedding_dim (dec_embedding D) = E"
    and lstm: "input_size (dec_lstm D) = E" "lstm_hidden_size (dec_lstm D) = H"
    and cx: "in_features (dec_context D) = H * 2 + E" "out_features (dec_context D) = E"
    and o1: "in_features (dec_out1 D) = H * 3" "out_features (dec_out1 D) = H"
    and o2: "in_features (dec_out2 D) = H" "out_features (dec_out2 D) = V"
    by (simp_all add: Decoder_init_def Embedding_init_def LSTM_init_def Linear_init_def)
  from Embedding_Some[of "dec_embedding D" x_in] ids obtain x1 where
    x1: "Embedding (dec_embedding D) x_in = Some x1" and sx1: "shape x1 = [B, E]"
    by (auto simp: emb sx)
  from cat1_Some[OF sctx sx1] obtain x2 where
    x2: "cat1 ctx x1 = Some x2" and sx2: "shape x2 = [B, 2 * H + E]" by auto
  from Linear_Some[of x2 "[B]" "dec_context D"] sx2 obtain x3l where
    x3l: "Linear (dec_context D) x2 = Some x3l" and sx3l: "shape x3l = [B, E]"
    by (auto simp: cx mult.commute)
  from Unsqueeze0_Some[of x3l] obtain x3 where
    u: "Unsqueeze 0 x3l = Some x3" and sx3: "shape x3 = [1, B, E]"
    by (auto simp: sx3l)
  have x3: "Decoder_context D x2 = Some x3"
    by (simp add: Decoder_context_def x3l u)
  from LSTM_Some[of x3 1 B "dec_lstm D" hid] sx3 shid obtain out h c where
    l: "LSTM (dec_lstm D) x3 hid = Some (out, h, c)" and so: "shape out = [1, B, H]"
    and sh: "shape h = [1, B, H]" and sc: "shape c = [1, B, H]"
    by (auto simp: lstm)
  from View_Some[OF sh, of B H] H obtain h' where
    h': "View H h = Some h'" and sh': "shape h' = [B, H]" by auto
  from View_Some[OF sc, of B H] H obtain c' where
    c': "View H c = Some c'" and sc': "shape c' = [B, H]" by auto
  from cat1_Some[OF sh' sc'] obtain dh where
    dh: "cat1 h' c' = Some dh" and sdh: "shape dh = [B, 2 * H]" by auto
  from Attention_forward_Some[OF A H B S sdh seo sef scov] obtain ctx' att cov' where
    af: "Attention_forward (dec_attention D) dh eo ef cov = Some (ctx', att, cov')"
    and sctx': "shape ctx' = [B, 2 * H]" and scov': "shape cov' = [S, B]"
    by blast
  from View_Some[OF so, of B H] H obtain xv where
    xv: "View H out = Some xv" and sxv: "shape xv = [B, H]" by auto
  from cat1_Some[OF sxv sctx'] obtain y where
    y: "cat1 xv ctx' = Some y" and sy: "shape y = [B, H * 3]" by (auto simp: mult.commute)
  from Linear_Some[of y "[B]" "dec_out1 D"] sy obtain y1 where
    y1: "Linear (dec_out1 D) y = Some y1" and sy1: "shape y1 = [B, H]"
    by (auto simp: o1)
  from Linear_Some[of y1 "[B]" "dec_out2 D"] sy1 obtain y2 where
    y2: "Linear (dec_out2 D) y1 = Some y2" and sy2: "shape y2 = [B, V]"
    by (auto simp: o2)
  from Softmax1_Some[OF sy2] obtain vd where vd: "Softmax1 y2 = Some vd" by auto
  have out: "Decoder_out D y = Some vd" by (simp add: Decoder_out_def y1 y2 vd)
  have "Decoder_forward D x_in hid eo ef ctx cov = Some (vd, dh, ctx', att, cov')"
    by (simp add: Decoder_forward_def x1 x2 x3 l hs h' c' dh af xv y out)
  with sctx' scov' show ?thesis by blast
qed

section \<open>Facts about the loop\<close>

lemma loop_body_SomeD:
  assumes "loop_body N summaries i st = Some st'"
  shows "\<exists>di vd dh ctx att cov.
           index_row summaries i = Some di
           \<and> Decoder_forward (pgn_decoder N) di (l_hidden st) (l_encoder_out st)
                (l_encoder_features st) (l_context st) (l_coverage st) = Some (vd, dh, ctx, att, cov)
           \<and> st' = st\<lparr>l_decoder_hidden := Some dh, l_context := ctx, l_coverage := cov,
                       l_outputs := l_outputs st @ [vd],
                       l_attention_list := l_attention_list st @ [att],
                       l_coverage_list := l_coverage_list st @ [cov]\<rparr>"
  using assms by (auto simp: loop_body_def bind_eq_Some_conv)

lemma loop_invariant:
  assumes "loop N summaries js st = Some st'" and "P st"
    and "\<And>i s s'. P s \<Longrightarrow> loop_body N summaries i s = Some s' \<Longrightarrow> P s'"
  shows "P st'"
  using assms(1,2)
proof (induction js arbitrary: st)
  case Nil
  then show ?case by simp
next
  case (Cons i js)
  from Cons.prems(1) obtain s1 where b: "loop_body N summaries i st = Some s1"
    and r: "loop N summaries js s1 = Some st'"
    by (auto simp: bind_eq_Some_conv)
  from assms(3)[OF Cons.prems(2) b] have "P s1" .
  from Cons.IH[OF r this] show ?case .
qed

lemma loop_snoc:
  "loop N summaries (js @ [i]) st = loop N summaries js st \<bind> loop_body N summaries i"
proof (induction js arbitrary: st)
  case Nil
  show ?case by (cases "loop_body N summaries i st") simp_all
next
  case (Cons a js)
  show ?case by (cases "loop_body N summaries a st") (simp_all add: Cons.IH)
qed

lemma coverage_inv_step:
  assumes inv: "coverage_inv S B st" and step: "loop_body N summaries i st = Some st'"
  shows "coverage_inv S B st'"
proof -
  from loop_body_SomeD[OF step] obtain di vd dh ctx att cov where
    dec: "Decoder_forward (pgn_decoder N) di (l_hidden st) (l_encoder_out st)
            (l_encoder_features st) (l_context st) (l_coverage st) = Some (vd, dh, ctx, att, cov)"
    and st': "st' = st\<lparr>l_decoder_hidden := Some dh, l_context := ctx, l_coverage := cov,
                       l_outputs := l_outputs st @ [vd],
                       l_attention_list := l_attention_list st @ [att],
                       l_coverage_list := l_coverage_list st @ [cov]\<rparr>"
    by blast
  from Decoder_forward_SomeD[OF dec] have
    af: "Attention_forward (dec_attention (pgn_decoder N)) dh (l_encoder_out st)
           (l_encoder_features st) (l_coverage st) = Some (ctx, att, cov)"
    by blast
  let ?as = "l_attention_list st" and ?cs = "l_coverage_list st"
  from inv obtain W where seo: "shape (l_encoder_out st) = [B, S, W]"
    and sc: "shape (l_coverage st) = [S, B]"
    and len: "length ?as = length ?cs"
    and cur: "\<And>k. k < S * B \<Longrightarrow> data (l_coverage st) ! k = (\<Sum>j<length ?as. data (?as ! j) ! k)"
    and old: "\<And>t k. t < length ?cs \<Longrightarrow> shape (?cs ! t) = [S, B] \<and> shape (?as ! t) = [S, B]"
    and old2: "\<And>t k. t < length ?cs \<Longrightarrow> k < S * B \<Longrightarrow> 0 < data (?as ! t) ! k
                  \<and> data (?cs ! t) ! k = (\<Sum>j\<le>t. data (?as ! j) ! k)"
    unfolding coverage_inv_def by blast
  from Attention_forward_SomeD[OF af seo] obtain x sc' where
    S0: "0 < S" and satt: "shape att = [S, B]"
    and datt: "\<And>s b. s < S \<Longrightarrow> b < B \<Longrightarrow> data att ! (s * B + b)
                 = exp (data sc' ! (s * B + b)) / (\<Sum>s'<S. exp (data sc' ! (s' * B + b)))"
    and addc: "add (l_coverage st) att = Some cov"
    by blast
  note cD = add_SomeD[OF addc sc satt]
  have pos: "0 < data att ! k" if "k < S * B" for k
  proof -
    from that have B0: "0 < B" by (cases B) simp_all
    have k: "k = (k div B) * B + k mod B" by simp
    have "k div B < S" using that B0 by (simp add: less_mult_imp_div_less)
    moreover have "k mod B < B" using B0 by simp
    ultimately have "data att ! ((k div B) * B + k mod B)
        = exp (data sc' ! ((k div B) * B + k mod B)) / (\<Sum>s'<S. exp (data sc' ! (s' * B + k mod B)))"
      by (rule datt)
    moreover have "0 < (\<Sum>s'<S. exp (data sc' ! (s' * B + k mod B)))"
      using S0 by (rule exp_sum_pos)
    ultimately have "0 < data att ! ((k div B) * B + k mod B)" by simp
    then show ?thesis by simp
  qed
  have newcov: "data cov ! k = (\<Sum>j\<le>length ?as. data ((?as @ [att]) ! j) ! k)" if "k < S * B" for k
  proof -
    have "data cov ! k = (\<Sum>j<length ?as. data (?as ! j) ! k) + data att ! k"
      using cD(2)[OF that] cur[OF that] by simp
    also have "(\<Sum>j<length ?as. data (?as ! j) ! k) = (\<Sum>j<length ?as. data ((?as @ [att]) ! j) ! k)"
      by (rule sum_nth_append[symmetric]) simp
    finally show ?thesis by (simp add: lessThan_Suc_atMost[symmetric])
  qed
  have entries: "shape ((?cs @ [cov]) ! t) = [S, B] \<and> shape ((?as @ [att]) ! t) = [S, B]
      \<and> (\<forall>k<S * B. 0 < data ((?as @ [att]) ! t) ! k
            \<and> data ((?cs @ [cov]) ! t) ! k = (\<Sum>j\<le>t. data ((?as @ [att]) ! j) ! k))"
    if "t < length (?cs @ [cov])" for t
  proof (cases "t < length ?cs")
    case True
    have "(\<Sum>j\<le>t. data ((?as @ [att]) ! j) ! k) = (\<Sum>j\<le>t. data (?as ! j) ! k)" for k
      using True len sum_nth_append[of "Suc t" ?as "\<lambda>a. data a ! k" "[att]"]
      by (simp add: lessThan_Suc_atMost)
    with True len old[OF True] old2[OF True] show ?thesis
      by (simp add: nth_append)
  next
    case False
    with that have t: "t = length ?cs" by simp
    show ?thesis using cD(1) satt pos newcov by (simp add: t len[symmetric] nth_append)
  qed
  have "(\<exists>W. shape (l_encoder_out st') = [B, S, W])" using seo by (simp add: st')
  moreover have "shape (l_coverage st') = [S, B]" using cD(1) by (simp add: st')
  moreover have "length (l_attention_list st') = length (l_coverage_list st')" using len by (simp add: st')
  moreover have "\<forall>k<S * B. data (l_coverage st') ! k
            = (\<Sum>j<length (l_attention_list st'). data (l_attention_list st' ! j) ! k)"
    using newcov by (simp add: st' lessThan_Suc_atMost)
  moreover have "\<forall>t<length (l_coverage_list st').
            shape (l_coverage_list st' ! t) = [S, B]
            \<and> shape (l_attention_list st' ! t) = [S, B]
            \<and> (\<forall>k<S * B. 0 < data (l_attention_list st' ! t) ! k
                  \<and> data (l_coverage_list st' ! t) ! k
                      = (\<Sum>j\<le>t. data (l_attention_list st' ! j) ! k))"
    using entries by (simp add: st')
  ultimately show ?thesis unfolding coverage_inv_def by blast
qed

lemma outputs_inv_step:
  assumes init: "Decoder_init V B E H (pgn_decoder N)" and H: "0 < H"
    and inv: "outputs_inv B V st" and step: "loop_body N summaries i st = Some st'"
  shows "outputs_inv B V st'"
proof -
  from loop_body_SomeD[OF step] obtain di vd dh ctx att cov where
    dec: "Decoder_forward (pgn_decoder N) di (l_hidden st) (l_encoder_out st)
            (l_encoder_features st) (l_context st) (l_coverage st) = Some (vd, dh, ctx, att, cov)"
    and st': "l_outputs st' = l_outputs st @ [vd]"
    by auto
  from init have V: "out_features (dec_out2 (pgn_decoder N)) = V" "0 < V"
    by (simp_all add: Decoder_init_def Linear_init_def Embedding_init_def)
  have svd: "shape vd = [B, V]" using Decoder_forward_shapes(1)[OF init H dec] .
  from Decoder_forward_SomeD[OF dec] obtain y where out: "Decoder_out (pgn_decoder N) y = Some vd"
    and "\<exists>n a b. shape y = [n, a + b]"
    by blast
  then obtain n k where sy: "shape y = [n, k]" by blast
  from Decoder_out_SomeD(1)[OF out sy] svd have n: "n = B" by simp
  have new: "(\<forall>j<V. 0 < at2 vd r j) \<and> (\<Sum>j<V. at2 vd r j) = 1" if "r < B" for r
    using Decoder_out_SomeD(2,3)[OF out sy, of r] that V n by simp
  have "shape ((l_outputs st @ [vd]) ! t) = [B, V]
        \<and> (\<forall>r<B. (\<forall>j<V. 0 < at2 ((l_outputs st @ [vd]) ! t) r j)
                  \<and> (\<Sum>j<V. at2 ((l_outputs st @ [vd]) ! t) r j) = 1)"
    if "t < length (l_outputs st @ [vd])" for t
  proof (cases "t < length (l_outputs st)")
    case True
    with inv show ?thesis by (simp add: outputs_inv_def nth_append)
  next
    case False
    with that have "t = length (l_outputs st)" by simp
    then show ?thesis using svd new by simp
  qed
  then show ?thesis by (simp add: outputs_inv_def st')
qed

lemma loop_lengths:
  assumes "loop N summaries js st = Some st'"
  shows "length (l_outputs st') = length (l_outputs st) + length js"
    and "length (l_attention_list st') = length (l_attention_list st) + length js"
    and "length (l_coverage_list st') = length (l_coverage_list st) + length js"
  using assms
proof (induction js arbitrary: st)
  case Nil
  {
    case 1 then show ?case by simp
  next
    case 2 then show ?case by simp
  next
    case 3 then show ?case by simp
  }
next
  case (Cons i js)
  {
    case 1
    then obtain s1 where b: "loop_body N summaries i st = Some s1"
      and r: "loop N summaries js s1 = Some st'"
      by (auto simp: bind_eq_Some_conv)
    from loop_body_SomeD[OF b] have "length (l_outputs s1) = Suc (length (l_outputs st))" by auto
    with Cons.IH(1)[OF r] show ?case by simp
  next
    case 2
    then obtain s1 where b: "loop_body N summaries i st = Some s1"
      and r: "loop N summaries js s1 = Some st'"
      by (auto simp: bind_eq_Some_conv)
    from loop_body_SomeD[OF b] have "length (l_attention_list s1) = Suc (length (l_attention_list st))" by auto
    with Cons.IH(2)[OF r] show ?case by simp
  next
    case 3
    then obtain s1 where b: "loop_body N summaries i st = Some s1"
      and r: "loop N summaries js s1 = Some st'"
      by (auto simp: bind_eq_Some_conv)
    from loop_body_SomeD[OF b] have "length (l_coverage_list s1) = Suc (length (l_coverage_list st))" by auto
    with Cons.IH(3)[OF r] show ?case by simp
  }
qed

lemma forward_init_SomeD:
  assumes "forward_init N texts = Some st"
  shows "\<exists>eo ef hid. Encoder_forward (pgn_encoder N) texts = Some (eo, ef, hid)
           \<and> st = \<lparr>l_encoder_out = eo, l_encoder_features = ef, l_hidden = hid,
                    l_context = zeros [pgn_batch_size N, 2 * pgn_hidden_size N],
                    l_coverage = zeros_like texts,
                    l_outputs = [], l_attention_list = [], l_coverage_list = [],
                    l_decoder_hidden = None\<rparr>"
  using assms by (auto simp: forward_init_def bind_eq_Some_conv)

lemma forward_SomeD:
  assumes "PointerGeneratorNetwork_forward N texts summaries = Some (outs, atts, covs)"
  shows "\<exists>st0 st. forward_init N texts = Some st0
           \<and> loop N summaries [0..<max_summary_length N] st0 = Some st
           \<and> outs = l_outputs st \<and> atts = l_attention_list st \<and> covs = l_coverage_list st"
  using assms by (auto simp: PointerGeneratorNetwork_forward_def bind_eq_Some_conv)

lemma coverage_inv_init:
  assumes "forward_init N texts = Some st" "shape texts = [S, B]"
  shows "coverage_inv S B st"
proof -
  from forward_init_SomeD[OF assms(1)] obtain eo ef h c where
    enc: "Encoder_forward (pgn_encoder N) texts = Some (eo, ef, (h, c))"
    and st: "l_encoder_out st = eo" "l_coverage st = zeros_like texts"
      "l_attention_list st = []" "l_coverage_list st = []"
    by (cases "forward_init N texts") auto
  from Encoder_forward_SomeD[OF enc] assms(2) obtain W where "shape eo = [B, S, W]" by auto
  then show ?thesis
    using assms(2) by (simp add: coverage_inv_def st zeros_like_def zeros_def)
qed

lemma forward_coverage_inv:
  assumes "PointerGeneratorNetwork_forward N texts summaries = Some (outs, atts, covs)"
    and "shape texts = [S, B]"
  shows "\<exists>st. coverage_inv S B st \<and> l_attention_list st = atts \<and> l_coverage_list st = covs
           \<and> length atts = max_summary_length N \<and> length covs = max_summary_length N
           \<and> length outs = max_summary_length N"
proof -
  from forward_SomeD[OF assms(1)] obtain st0 st where
    i: "forward_init N texts = Some st0"
    and l: "loop N summaries [0..<max_summary_length N] st0 = Some st"
    and r: "outs = l_outputs st" "atts = l_attention_list st" "covs = l_coverage_list st"
    by blast
  have "coverage_inv S B st"
    using l coverage_inv_init[OF i assms(2)] coverage_inv_step by (rule loop_invariant)
  moreover from forward_init_SomeD[OF i] have "l_outputs st0 = []" "l_attention_list st0 = []"
    "l_coverage_list st0 = []" by auto
  with loop_lengths[OF l] have "length atts = max_summary_length N"
    "length covs = max_summary_length N" "length outs = max_summary_length N"
    by (simp_all add: r)
  ultimately show ?thesis using r by blast
qed

lemma forward_outputs_inv:
  assumes init: "PointerGeneratorNetwork_init V B msl E H N" and H: "0 < H"
    and fw: "PointerGeneratorNetwork_forward N texts summaries = Some (outs, atts, covs)"
  shows "\<exists>st. outputs_inv B V st \<and> l_outputs st = outs"
proof -
  from init have d: "Decoder_init V B E H (pgn_decoder N)"
    by (simp add: PointerGeneratorNetwork_init_def)
  from forward_SomeD[OF fw] obtain st0 st where
    i: "forward_init N texts = Some st0"
    and l: "loop N summaries [0..<max_summary_length N] st0 = Some st"
    and r: "outs = l_outputs st"
    by blast
  from forward_init_SomeD[OF i] have "l_outputs st0 = []" by auto
  then have "outputs_inv B V st0" by (simp add: outputs_inv_def)
  with l have "outputs_inv B V st"
    using outputs_inv_step[OF d H] by (rule loop_invariant)
  with r show ?thesis by blast
qed

lemma loop_body_hidden:
  assumes "loop_body N summaries i st = Some st'"
  shows "l_hidden st' = l_hidden st" "l_encoder_out st' = l_encoder_out st"
    "l_encoder_features st' = l_encoder_features st"
  using loop_body_SomeD[OF assms] by auto

lemma loop_body_Some:
  assumes init: "Decoder_init V B E H (pgn_decoder N)" and H: "0 < H" and B: "0 < B" and S: "0 < S"
    and ss: "shape summaries = [L, B]" and w: "wf summaries" and ids: "ids_in_range V summaries"
    and i: "i < L" and ok: "locals_ok S B H st"
  shows "\<exists>st'. loop_body N summaries i st = Some st' \<and> locals_ok S B H st'"
proof -
  from index_row_Some[OF ss i w ids[unfolded ids_in_range_def]] obtain di where
    di: "index_row summaries i = Some di" and sdi: "shape di = [B]"
    and idi: "list_all (\<lambda>i. 0 \<le> i \<and> i < int V) (data di)"
    by blast
  from ok have o: "shape (fst (l_hidden st)) = [1, B, H]" "shape (snd (l_hidden st)) = [1, B, H]"
    "shape (l_encoder_out st) = [B, S, 2 * H]" "shape (l_encoder_features st) = [S * B, 2 * H]"
    "shape (l_context st) = [B, 2 * H]" "shape (l_coverage st) = [S, B]"
    by (simp_all add: locals_ok_def)
  from Decoder_forward_Some[OF init H B S sdi idi o] obtain vd dh ctx' att cov' where
    d: "Decoder_forward (pgn_decoder N) di (l_hidden st) (l_encoder_out st)
          (l_encoder_features st) (l_context st) (l_coverage st) = Some (vd, dh, ctx', att, cov')"
    and s': "shape ctx' = [B, 2 * H]" "shape cov' = [S, B]"
    by blast
  show ?thesis
    using o s' by (simp add: loop_body_def di d locals_ok_def)
qed

lemma loop_Some:
  assumes init: "Decoder_init V B E H (pgn_decoder N)" and H: "0 < H" and B: "0 < B" and S: "0 < S"
    and ss: "shape summaries = [L, B]" and w: "wf summaries" and ids: "ids_in_range V summaries"
  shows "list_all (\<lambda>i. i < L) js \<Longrightarrow> locals_ok S B H st
           \<Longrightarrow> \<exists>st'. loop N summaries js st = Some st' \<and> locals_ok S B H st'"
proof (induction js arbitrary: st)
  case Nil
  then show ?case by simp
next
  case (Cons i js)
  from Cons.prems have i: "i < L" and js: "list_all (\<lambda>i. i < L) js" by simp_all
  from loop_body_Some[OF init H B S ss w ids i Cons.prems(2)] obtain s1 where
    b: "loop_body N summaries i st = Some s1" and ok1: "locals_ok S B H s1"
    by blast
  from Cons.IH[OF js ok1] obtain st' where "loop N summaries js s1 = Some st'" "locals_ok S B H st'"
    by blast
  with b show ?case by simp
qed

lemma forward_init_Some:
  assumes init: "PointerGeneratorNetwork_init V B msl E H N" and H: "0 < H"
    and st: "shape texts = [S, B]" and S: "0 < S" and ids: "ids_in_range V texts"
  shows "\<exists>st. forward_init N texts = Some st \<and> locals_ok S B H st
           \<and> l_outputs st = [] \<and> l_attention_list st = [] \<and> l_coverage_list st = []"
proof -
  from init have e: "Encoder_init V E H (pgn_encoder N)" and b: "pgn_batch_size N = B"
    and h: "pgn_hidden_size N = H"
    by (simp_all add: PointerGeneratorNetwork_init_def)
  from Encoder_forward_Some[OF e H st S ids[unfolded ids_in_range_def]] obtain eo ef hh c where
    enc: "Encoder_forward (pgn_encoder N) texts = Some (eo, ef, (hh, c))"
    and s: "shape eo = [B, S, 2 * H]" "shape ef = [S * B, 2 * H]" "shape hh = [1, B, H]"
      "shape c = [1, B, H]"
    by blast
  show ?thesis
    using s st by (simp add: forward_init_def enc locals_ok_def b h zeros_def zeros_like_def)
qed

lemma loop_append:
  "loop N summaries (xs @ ys) st = loop N summaries xs st \<bind> loop N summaries ys"
proof (induction xs arbitrary: st)
  case Nil
  show ?case by simp
next
  case (Cons a xs)
  show ?case by (cases "loop_body N summaries a st") (simp_all add: Cons.IH)
qed

lemma loop_grows:
  assumes "loop N summaries js st = Some st'"
  shows "take (length (l_outputs st)) (l_outputs st') = l_outputs st"
    and "take (length (l_attention_list st)) (l_attention_list st') = l_attention_list st"
    and "take (length (l_coverage_list st)) (l_coverage_list st') = l_coverage_list st"
proof -
  have "take (length (l_outputs st)) (l_outputs st') = l_outputs st
      \<and> take (length (l_attention_list st)) (l_attention_list st') = l_attention_list st
      \<and> take (length (l_coverage_list st)) (l_coverage_list st') = l_coverage_list st"
    using assms
  proof (induction js arbitrary: st)
    case Nil
    then show ?case by simp
  next
    case (Cons i js)
    from Cons.prems obtain s1 where b: "loop_body N summaries i st = Some s1"
      and r: "loop N summaries js s1 = Some st'"
      by (auto simp: bind_eq_Some_conv)
    from loop_body_SomeD[OF b] obtain vd att cov where
      s1: "l_outputs s1 = l_outputs st @ [vd]" "l_attention_list s1 = l_attention_list st @ [att]"
        "l_coverage_list s1 = l_coverage_list st @ [cov]"
      by auto
    from Cons.IH[OF r] have
      "take (length (l_outputs st)) (take (length (l_outputs s1)) (l_outputs st'))
         = take (length (l_outputs st)) (l_outputs s1)"
      "take (length (l_attention_list st)) (take (length (l_attention_list s1)) (l_attention_list st'))
         = take (length (l_attention_list st)) (l_attention_list s1)"
      "take (length (l_coverage_list st)) (take (length (l_coverage_list s1)) (l_coverage_list st'))
         = take (length (l_coverage_list st)) (l_coverage_list s1)"
      by simp_all
    then show ?case by (simp add: s1)
  qed
  then show "take (length (l_outputs st)) (l_outputs st') = l_outputs st"
    and "take (length (l_attention_list st)) (l_attention_list st') = l_attention_list st"
    and "take (length (l_coverage_list st)) (l_coverage_list st') = l_coverage_list st"
    by simp_all
qed

section \<open>Evaluation of the concrete network\<close>

lemmas upt_ev = upt_rec[of 0 "numeral n"] upt_rec[of "Suc m" "numeral n"] upt_rec[of 0 "Suc n"]
  upt_rec[of "Suc m" "Suc n"] for m n

lemmas op_defs = tabulate_def zeros_def zeros_like_def View_def Unsqueeze_def transpose01_def
  Permute10_def permute102_def contiguous_def expandable_def expand3_def bdim_def bidx_def add_def
  ReLU_def Tanh_def Softmax0_def Softmax1_def bmm_def cat1_def index_row_def dot_def slice_def
  Linear_def Embedding_def sigmoid_def lstm_gate_def lstm_cell_def lstm_inputs_def LSTM_def
  BiLSTM_def numel_def

lemmas module_defs = Encoder_forward_def Encoder_linear_def Encoder_reduce_hidden_def
  Encoder_reduce_cell_def Decoder_forward_def Decoder_context_def Decoder_out_def
  Attention_forward_def Attention_summed_def Attention_features_def Attention_coverage_def
  Attention_attention_def Attention_scores_def

lemmas ex_defs = ex_lstm_weights_def ex_embedding_def ex_encoder_def ex_attention_def
  ex_decoder_def

lemma ex_Encoder_forward:
  "Encoder_forward ex_encoder ex_texts
     = Some (Tensor [1, 1, 2] [0, 0], Tensor [1, 2] [0, 0], (Tensor [1, 1, 1] [1], Tensor [1, 1, 1] [1]))"
  by (simp add: module_defs ex_defs ex_texts_def op_defs upt_ev Let_def)

lemma ex_Decoder_forward:
  "Decoder_forward ex_decoder (Tensor [1] [1]) (Tensor [1, 1, 1] [h0], Tensor [1, 1, 1] [c0])
       (Tensor [1, 1, 2] [0, 0]) (Tensor [1, 2] [0, 0]) (Tensor [1, 2] [0, 0]) (Tensor [1, 1] [c])
     = Some (Tensor [1, 2] [1 / 2, 1 / 2], Tensor [1, 2] [tanh (c0 / 2) / 2, c0 / 2],
             Tensor [1, 2] [0, 0], Tensor [1, 1] [1], Tensor [1, 1] [c + 1])"
  by (simp add: module_defs ex_defs op_defs upt_ev Let_def)

lemma ex_index_row: "i < 3 \<Longrightarrow> index_row ex_summaries i = Some (Tensor [1] [1])"
proof -
  assume "i < 3"
  then have "i = 0 \<or> i = 1 \<or> i = 2" by auto
  then show ?thesis by (auto simp: index_row_def ex_summaries_def tabulate_def upt_ev)
qed

lemma ex_forward_init: "forward_init ex_pgn ex_texts = Some (ex_st None 0 [] [] [])"
proof -
  have r: "replicate 2 (0::real) = [0, 0]" by (simp add: numeral_2_eq_2)
  have e: "pgn_encoder ex_pgn = ex_encoder" by (simp add: ex_pgn_def)
  show ?thesis
    unfolding forward_init_def e ex_Encoder_forward
    by (simp add: ex_st_def ex_pgn_def zeros_def zeros_like_def ex_texts_def r)
qed

lemma ex_loop_body:
  "i < 3 \<Longrightarrow> loop_body ex_pgn ex_summaries i (ex_st dh c outs atts covs)
     = Some (ex_st (Some (Tensor [1, 2] [tanh (1 / 2) / 2, 1 / 2])) (c + 1)
               (outs @ [Tensor [1, 2] [1 / 2, 1 / 2]]) (atts @ [Tensor [1, 1] [1]])
               (covs @ [Tensor [1, 1] [c + 1]]))"
proof -
  assume i: "i < 3"
  have d: "pgn_decoder ex_pgn = ex_decoder" by (simp add: ex_pgn_def)
  show ?thesis
    unfolding loop_body_def ex_index_row[OF i] d
    by (simp add: ex_st_def ex_Decoder_forward del: One_nat_def)
qed

lemma ex_forward:
  "PointerGeneratorNetwork_forward ex_pgn ex_texts ex_summaries
     = Some (ex_outputs, ex_attentions, ex_coverages)"
proof -
  have m: "max_summary_length ex_pgn = 3" by (simp add: ex_pgn_def)
  have u: "[0..<3] = [0, 1, 2]" by (simp add: upt_ev)
  show ?thesis
    unfolding PointerGeneratorNetwork_forward_def ex_forward_init m u
    by (simp add: ex_loop_body del: One_nat_def)
       (simp add: ex_st_def ex_outputs_def ex_attentions_def ex_coverages_def)
qed

lemma ex_Encoder_reduce:
  "Encoder_reduce_hidden ex_encoder (Tensor [1, 2, 1] [0, 0]) = Some (Tensor [1, 1, 1] [1])"
  "Encoder_reduce_cell ex_encoder (Tensor [1, 2, 1] [0, 0]) = Some (Tensor [1, 1, 1] [1])"
  by (simp_all add: module_defs ex_defs op_defs upt_ev)

lemma ex_Decoder_init: "Decoder_init 2 1 1 1 ex_decoder"
  by (simp add: Decoder_init_def Attention_init_def Embedding_init_def LSTM_init_def
      lstm_weights_init_def Linear_init_def ex_defs)

lemma ex_Encoder_init: "Encoder_init 2 1 1 ex_encoder"
  by (simp add: Encoder_init_def Embedding_init_def BiLSTM_init_def LSTM_init_def
      lstm_weights_init_def Linear_init_def ex_defs)

lemma ex_init: "PointerGeneratorNetwork_init 2 1 3 1 1 ex_pgn"
  by (simp add: PointerGeneratorNetwork_init_def ex_pgn_def ex_Decoder_init ex_Encoder_init del: One_nat_def)


text \<open>The attention module on float32 tensors: the scores overflow, the weights are NaN.\<close>

lemma floor_log2:
  assumes "2 powr of_int e \<le> x" and "x < 2 powr (of_int e + 1)"
  shows "\<lfloor>log 2 x\<rfloor> = e"
proof -
  have "0 < (2::real) powr of_int e" by simp
  then have x: "0 < x" using assms(1) by linarith
  have "of_int e \<le> log 2 x" using assms(1) x by (simp add: le_log_iff)
  moreover have "log 2 x < of_int e + 1" using assms(2) x by (simp add: log_less_iff)
  ultimately show ?thesis by (simp add: floor_unique)
qed

lemma round_even_int [simp]: "round_even (of_int n) = n"
  by (simp add: round_even_def)

lemma round_even_numeral [simp]: "round_even (numeral n) = numeral n"
  using round_even_int[of "numeral n"] by simp

text \<open>A binary32 number rounds to itself.\<close>

lemma rnd_exact:
  assumes "2 powr of_int e \<le> \<bar>x\<bar>" and "\<bar>x\<bar> < 2 powr (of_int e + 1)" and "- 126 \<le> e"
    and "x = of_int n * 2 powr (of_int e - 23)" and "\<bar>x\<bar> < 2 ^ 128"
  shows "rnd x = Fin x"
proof -
  have fl: "\<lfloor>log 2 \<bar>x\<bar>\<rfloor> = e" using assms(1,2) by (rule floor_log2)
  have u: "f32_ulp x = 2 powr (of_int e - 23)" using assms(3) by (simp add: f32_ulp_def fl max_def)
  have "0 < (2::real) powr of_int e" by simp
  then have x0: "x \<noteq> 0" using assms(1) by auto
  have q: "x / f32_ulp x = of_int n" unfolding u using assms(4) by simp
  have y: "of_int (round_even (x / f32_ulp x)) * f32_ulp x = x"
    unfolding q round_even_int u using assms(4) by simp
  show ?thesis unfolding rnd_def y using x0 assms(5) by (simp add: Let_def abs_less_iff)
qed

lemma rnd_0 [simp]: "rnd 0 = Fin 0"
  by (simp add: rnd_def)

lemma rnd_1 [simp]: "rnd 1 = Fin 1"
  by (rule rnd_exact[where e = 0 and n = "2 ^ 23"]) (simp_all add: powr_minus powr_numeral field_simps)

lemma rnd_20 [simp]: "rnd 20 = Fin 20"
  by (rule rnd_exact[where e = 4 and n = "20 * 2 ^ 19"])
     (simp_all add: powr_minus powr_numeral field_simps)

lemma rnd_f32_max [simp]: "rnd f32_max = Fin f32_max"
  by (rule rnd_exact[where e = 127 and n = "2 ^ 24 - 1"])
     (simp_all add: f32_max_def powr_minus powr_numeral field_simps)

text \<open>The sum of the largest finite number with itself overflows.\<close>

lemma rnd_overflow [simp]: "rnd (2 * f32_max) = PInf"
proof -
  have fl: "\<lfloor>log 2 \<bar>2 * f32_max\<bar>\<rfloor> = 128"
    by (rule floor_log2) (simp_all add: f32_max_def powr_numeral)
  have u: "f32_ulp (2 * f32_max) = 2 ^ 105" by (simp add: f32_ulp_def fl powr_numeral)
  have q: "2 * f32_max / 2 ^ 105 = 16777215" by (simp add: f32_max_def)
  have y: "of_int (round_even (2 * f32_max / f32_ulp (2 * f32_max))) * f32_ulp (2 * f32_max)
             = 2 * f32_max"
    unfolding u q by (simp add: f32_max_def)
  have x0: "2 * f32_max \<noteq> 0" by (simp add: f32_max_def)
  have big: "(2::real) ^ 128 \<le> 2 * f32_max" by (simp add: f32_max_def)
  show ?thesis unfolding rnd_def y Let_def using x0 big by simp
qed

text \<open>\<open>tanh 20\<close> is less than \<open>2^-25\<close> below 1, and so rounds to 1.\<close>

lemma tanh_20: "1 - 1 / 33554432 < tanh (20::real)"
proof -
  have "ln (2 ^ 13) = 13 * ln (2::real)" using ln_realpow[of 2 13] by simp
  moreover have "ln 2 \<le> (1::real)" using ln_le_minus_one[of "2::real"] by simp
  ultimately have "ln (2 ^ 13) < (20::real)" by linarith
  then have a: "tanh (ln (2 ^ 13)) < tanh (20::real)"
    using tanh_real_strict_mono by (simp add: strict_mono_def)
  have b: "tanh (ln (2 ^ 13) :: real) = 67108863 / 67108865" by (simp add: tanh_ln_real)
  have c: "(1 - 1 / 33554432 :: real) < 67108863 / 67108865" by simp
  from a[unfolded b] c show ?thesis by linarith
qed

lemma rnd_tanh_20 [simp]: "rnd (tanh 20) = Fin 1"
proof -
  let ?t = "tanh (20::real)"
  have lo: "1 - 1 / 33554432 < ?t" by (rule tanh_20)
  have hi: "?t < 1" by (rule tanh_real_lt_1)
  have pos: "0 < ?t" using lo by simp
  have "\<lfloor>log 2 ?t\<rfloor> = - 1"
    using lo hi pos by (intro floor_log2) (simp_all add: powr_minus)
  then have u: "f32_ulp ?t = 1 / 16777216"
    using pos by (simp add: f32_ulp_def powr_minus powr_numeral)
  have q1: "16777216 - 1 / 2 < ?t * 16777216" using lo by (simp add: field_simps)
  have q2: "?t * 16777216 < 16777216" using hi by simp
  have f: "\<lfloor>?t * 16777216\<rfloor> = 16777215"
    using q1 q2 by (intro floor_unique) simp_all
  have r: "round_even (?t * 16777216) = 16777216"
    unfolding round_even_def f Let_def using q1 by simp
  have q: "?t / (1 / 16777216) = ?t * 16777216" by simp
  have y: "of_int (round_even (?t / f32_ulp ?t)) * f32_ulp ?t = 1"
    unfolding u q r by simp
  show ?thesis unfolding rnd_def y Let_def using pos by simp
qed

lemmas f32_defs = Attention_forward_f32_def Attention_features_f32_def Attention_coverage_f32_def
  Attention_attention_f32_def Attention_scores_f32_def Linear_f32_def add_f32_def Tanh_f32_def
  Softmax0_f32_def bmm_f32_def fdot_def fsum_def fsub_def

lemmas ex_f32_defs = ex_attention_big_def ex_hidden_f32_def ex_encoder_out_f32_def
  ex_encoder_features_f32_def ex_coverage_f32_def

lemma ex_Attention_scores_f32:
  "Attention_scores_f32 ex_attention_big (Tensor [1, 2] [Fin 20, Fin 20]) = Some (Tensor [1, 1] [PInf])"
  by (simp add: f32_defs ex_f32_defs ex_attention_def tabulate_def slice_def upt_ev)

lemma ex_Attention_forward_f32:
  "Attention_forward_f32 ex_attention_big ex_hidden_f32 ex_encoder_out_f32 ex_encoder_features_f32
     ex_coverage_f32
   = Some (Tensor [1, 2] [NaN, NaN], Tensor [1, 1] [NaN], Tensor [1, 1] [NaN])"
  by (simp add: f32_defs ex_f32_defs ex_attention_def View_def Unsqueeze_def Permute10_def
      transpose01_def expand3_def expandable_def contiguous_def tabulate_def numel_def slice_def
      bdim_def bidx_def upt_ev Let_def)

lemma ex_Attention_big_init: "Attention_init 1 1 ex_attention_big"
  by (simp add: Attention_init_def Linear_init_def ex_attention_big_def ex_attention_def)

section \<open>The claims\<close>

subsection \<open>C1\<close>

text \<open>
  C1. On the concrete network the claim fails. Step 0 receives the state derived from the
  encoder, \<open>h = 1\<close> and \<open>c = 1\<close>, and produces \<open>h = tanh (1/2) / 2\<close> and \<open>c = 1/2\<close>,
  which the loop binds to \<open>decoder_hidden\<close>. The variable \<open>hidden\<close>, which the loop passes
  to the decoder (see \<open>loop_body\<close>), still holds the state of the encoder after step 0: no
  step assigns it (\<open>loop_body_hidden\<close>). So step 1 produces \<open>h = tanh (1/2) / 2\<close> and
  \<open>c = 1/2\<close> once more, where the decoder, given the state step 0 produced, returns
  \<open>h = tanh (1/4) / 2\<close> and \<open>c = 1/4\<close>.
\<close>

theorem C1_decoder_state_not_threaded:
  "forward_init ex_pgn ex_texts = Some (ex_st None 0 [] [] [])
   \<and> loop_body ex_pgn ex_summaries 0 (ex_st None 0 [] [] []) = Some ex_st1
   \<and> l_decoder_hidden ex_st1 = Some (Tensor [1, 2] [tanh (1 / 2) / 2, 1 / 2])
   \<and> l_hidden ex_st1 = (Tensor [1, 1, 1] [1], Tensor [1, 1, 1] [1])
   \<and> loop_body ex_pgn ex_summaries 1 ex_st1 = Some ex_st2
   \<and> l_decoder_hidden ex_st2 = Some (Tensor [1, 2] [tanh (1 / 2) / 2, 1 / 2])
   \<and> Decoder_forward (pgn_decoder ex_pgn) (Tensor [1] [1])
        (Tensor [1, 1, 1] [tanh (1 / 2) / 2], Tensor [1, 1, 1] [1 / 2])
        (l_encoder_out ex_st1) (l_encoder_features ex_st1) (l_context ex_st1) (l_coverage ex_st1)
      = Some (Tensor [1, 2] [1 / 2, 1 / 2], Tensor [1, 2] [tanh (1 / 4) / 2, 1 / 4],
              Tensor [1, 2] [0, 0], Tensor [1, 1] [1], Tensor [1, 1] [2])
   \<and> Tensor [1, 2] [tanh (1 / 4) / 2, 1 / 4 :: real] \<noteq> Tensor [1, 2] [tanh (1 / 2) / 2, 1 / 2]"
proof -
  have d: "pgn_decoder ex_pgn = ex_decoder" by (simp add: ex_pgn_def)
  have s1: "loop_body ex_pgn ex_summaries 0 (ex_st None 0 [] [] []) = Some ex_st1"
    using ex_loop_body[of 0 None 0 "[]" "[]" "[]"] by (simp add: ex_st1_def)
  have s2: "loop_body ex_pgn ex_summaries 1 ex_st1 = Some ex_st2"
    unfolding ex_st1_def ex_st2_def
    using ex_loop_body[of 1 "Some (Tensor [1, 2] [tanh (1 / 2) / 2, 1 / 2])" 1
        "[Tensor [1, 2] [1 / 2, 1 / 2]]" "[Tensor [1, 1] [1]]" "[Tensor [1, 1] [1]]"]
    by simp
  have t: "Decoder_forward (pgn_decoder ex_pgn) (Tensor [1] [1])
        (Tensor [1, 1, 1] [tanh (1 / 2) / 2], Tensor [1, 1, 1] [1 / 2])
        (l_encoder_out ex_st1) (l_encoder_features ex_st1) (l_context ex_st1) (l_coverage ex_st1)
      = Some (Tensor [1, 2] [1 / 2, 1 / 2], Tensor [1, 2] [tanh (1 / 4) / 2, 1 / 4],
              Tensor [1, 2] [0, 0], Tensor [1, 1] [1], Tensor [1, 1] [2])"
    using ex_Decoder_forward[where ?h0.0 = "tanh (1 / 2) / 2" and ?c0.0 = "1 / 2" and c = 1]
    by (simp add: d ex_st1_def ex_st_def del: One_nat_def)
  have sel: "l_decoder_hidden ex_st1 = Some (Tensor [1, 2] [tanh (1 / 2) / 2, 1 / 2])"
    "l_hidden ex_st1 = (Tensor [1, 1, 1] [1], Tensor [1, 1, 1] [1])"
    "l_decoder_hidden ex_st2 = Some (Tensor [1, 2] [tanh (1 / 2) / 2, 1 / 2])"
    by (simp_all add: ex_st1_def ex_st2_def ex_st_def)
  have ne: "Tensor [1, 2] [tanh (1 / 4) / 2, 1 / 4 :: real] \<noteq> Tensor [1, 2] [tanh (1 / 2) / 2, 1 / 2]"
    by simp
  from ex_forward_init s1 sel s2 t ne show ?thesis by blast
qed

subsection \<open>C2\<close>

text \<open>
  C2, as stated, fails on the concrete network: the first returned coverage is the attention
  of step 0, not zero, and the third one is not the sum of the first two attention vectors.
\<close>

theorem C2_coverages_first_not_zero:
  "PointerGeneratorNetwork_forward ex_pgn ex_texts ex_summaries
     = Some (ex_outputs, ex_attentions, ex_coverages)
   \<and> ex_coverages ! 0 \<noteq> zeros_like ex_texts
   \<and> at2 (ex_coverages ! 2) 0 0 \<noteq> at2 (ex_attentions ! 0) 0 0 + at2 (ex_attentions ! 1) 0 0"
  using ex_forward
  by (simp add: ex_texts_def ex_coverages_def ex_attentions_def at2_def zeros_like_def zeros_def)

text \<open>
  C2, amended. On a text of shape \<open>[S, B]\<close>, the three lists have \<open>max_summary_length\<close>
  entries, and the entry \<open>t\<close> of the returned coverages is the elementwise sum of the
  returned attention weights of the steps \<open>0, \<dots>, t\<close>, the step \<open>t\<close> included: the loop
  records the coverage after the decoder has added the weights of the step.
\<close>

theorem C2_coverage_inclusive_sum:
  assumes "PointerGeneratorNetwork_forward N texts summaries = Some (outs, atts, covs)"
    and "shape texts = [S, B]"
  shows "length covs = max_summary_length N \<and> length atts = max_summary_length N
         \<and> (\<forall>t<max_summary_length N.
               shape (covs ! t) = [S, B] \<and> shape (atts ! t) = [S, B]
               \<and> (\<forall>s<S. \<forall>b<B. at2 (covs ! t) s b = (\<Sum>j\<le>t. at2 (atts ! j) s b)))"
proof -
  let ?n = "max_summary_length N"
  from forward_coverage_inv[OF assms] obtain st where
    inv: "coverage_inv S B st" and r: "l_attention_list st = atts" "l_coverage_list st = covs"
    and len: "length atts = ?n" "length covs = ?n"
    by blast
  from inv r len have
    sh: "\<And>t. t < ?n \<Longrightarrow> shape (covs ! t) = [S, B] \<and> shape (atts ! t) = [S, B]"
    and el: "\<And>t k. t < ?n \<Longrightarrow> k < S * B \<Longrightarrow>
               data (covs ! t) ! k = (\<Sum>j\<le>t. data (atts ! j) ! k)"
    unfolding coverage_inv_def by auto
  have "at2 (covs ! t) s b = (\<Sum>j\<le>t. at2 (atts ! j) s b)" if "t < ?n" "s < S" "b < B" for t s b
  proof -
    have "at2 (covs ! t) s b = (\<Sum>j\<le>t. data (atts ! j) ! (s * B + b))"
      using sh[OF that(1)] el[OF that(1) idx_lt[OF that(2,3)]] by (simp add: at2_data)
    also have "\<dots> = (\<Sum>j\<le>t. at2 (atts ! j) s b)"
    proof (rule sum.cong)
      fix j assume "j \<in> {..t}"
      with that(1) have "j < ?n" by simp
      from sh[OF this] show "data (atts ! j) ! (s * B + b) = at2 (atts ! j) s b"
        by (simp add: at2_data)
    qed simp
    finally show ?thesis .
  qed
  with sh len show ?thesis by simp
qed

text \<open>The amended C2 on the concrete network: the third coverage is the sum of all three weights.\<close>

theorem C2_coverage_inclusive_sum_witness:
  "PointerGeneratorNetwork_forward ex_pgn ex_texts ex_summaries
     = Some (ex_outputs, ex_attentions, ex_coverages)
   \<and> shape ex_texts = [1, 1]
   \<and> length ex_coverages = max_summary_length ex_pgn
   \<and> at2 (ex_coverages ! 2) 0 0
       = at2 (ex_attentions ! 0) 0 0 + at2 (ex_attentions ! 1) 0 0 + at2 (ex_attentions ! 2) 0 0"
  using C2_coverage_inclusive_sum[OF ex_forward, of 1 1] ex_forward
  by (simp add: ex_texts_def ex_pgn_def ex_coverages_def ex_attentions_def at2_def)

subsection \<open>C3\<close>

text \<open>
  C3, as stated, fails in float32 arithmetic. On the module \<open>ex_attention_big\<close>, which is as
  the constructor builds it for hidden size 1 and batch size 1 and has finite parameters, and
  on finite arguments of the shapes of a decoding step, the summed features are 20, their
  \<^verbatim>\<open>Tanh\<close> rounds to 1, and the score \<open>f32_max * 1 + f32_max * 1\<close> overflows
  to \<open>PInf\<close>. \<^verbatim>\<open>Softmax\<close> subtracts the maximum, \<open>PInf\<close>, from it, which gives NaN: the
  weight of the one source position is NaN, which is not non-negative, and the weights of the
  batch element do not sum to 1.
\<close>

theorem C3_float32_weights_nan:
  "Attention_init 1 1 ex_attention_big
   \<and> Attention_scores_f32 ex_attention_big (Tensor [1, 2] [Fin 20, Fin 20])
       = Some (Tensor [1, 1] [PInf])
   \<and> Attention_forward_f32 ex_attention_big ex_hidden_f32 ex_encoder_out_f32
        ex_encoder_features_f32 ex_coverage_f32
       = Some (Tensor [1, 2] [NaN, NaN], Tensor [1, 1] [NaN], Tensor [1, 1] [NaN])
   \<and> \<not> fle (Fin 0) (at2 (Tensor [1, 1] [NaN]) 0 0)
   \<and> fsum (column (Tensor [1, 1] [NaN]) 0) \<noteq> Fin 1"
  using ex_Attention_big_init ex_Attention_scores_f32 ex_Attention_forward_f32
  by (simp add: at2_def column_def fsum_def upt_ev)

text \<open>
  C3, amended. Over exact real arithmetic, on every valid input (a module as the constructor
  builds it for hidden size \<open>H\<close> and
  batch size \<open>B\<close>, the decoder state of shape \<open>[B, 2H]\<close>, the encoder output of shape
  \<open>[B, S, 2H]\<close>, the encoder features of shape \<open>[S * B, 2H]\<close> and the coverage of shape
  \<open>[S, B]\<close>) \<^verbatim>\<open>Attention.forward\<close> returns, the weights have shape \<open>[S, B]\<close>, and for
  every batch element \<open>b\<close> the weights over the \<open>S\<close> source positions are non-negative and
  sum to 1. The weight of position \<open>s\<close> for batch element \<open>b\<close> is the exponential of the
  score at index \<open>s * B + b\<close> (position \<open>s\<close>, batch element \<open>b\<close>) over the sum of the
  exponentials of the scores of the same batch element \<open>b\<close>: no score of another batch
  element enters the normalisation.
\<close>

theorem C3_attention_weights_distribution:
  assumes "Attention_init H B A" and "0 < H" and "0 < B" and "0 < S"
    and "shape hidden = [B, 2 * H]" and "shape eo = [B, S, 2 * H]"
    and "shape ef = [S * B, 2 * H]" and "shape cov = [S, B]"
  shows "\<exists>ctx att cov' x sc.
           Attention_forward A hidden eo ef cov = Some (ctx, att, cov')
           \<and> shape att = [S, B]
           \<and> (\<forall>b<B. (\<forall>s<S. 0 \<le> at2 att s b) \<and> (\<Sum>s<S. at2 att s b) = 1)
           \<and> Attention_summed A hidden eo ef cov = Some x
           \<and> Attention_scores A x = Some sc \<and> numel sc = S * B
           \<and> (\<forall>b<B. \<forall>s<S. at2 att s b
                  = exp (data sc ! (s * B + b)) / (\<Sum>s'<S. exp (data sc ! (s' * B + b))))"
proof -
  from Attention_forward_Some[OF assms] obtain ctx att cov' where
    af: "Attention_forward A hidden eo ef cov = Some (ctx, att, cov')"
    by blast
  from Attention_forward_SomeD[OF af assms(6)] obtain x sc where
    satt: "shape att = [S, B]"
    and x: "Attention_summed A hidden eo ef cov = Some x" and sc: "Attention_scores A x = Some sc"
    and ne: "numel sc = S * B"
    and datt: "\<And>s b. s < S \<Longrightarrow> b < B \<Longrightarrow> data att ! (s * B + b)
                 = exp (data sc ! (s * B + b)) / (\<Sum>s'<S. exp (data sc ! (s' * B + b)))"
    by blast
  note w = Attention_forward_weights[OF af assms(6)]
  have "\<forall>b<B. (\<forall>s<S. 0 \<le> at2 att s b) \<and> (\<Sum>s<S. at2 att s b) = 1"
    using w(2,3) by (simp add: less_imp_le)
  moreover have "\<forall>b<B. \<forall>s<S. at2 att s b
                       = exp (data sc ! (s * B + b)) / (\<Sum>s'<S. exp (data sc ! (s' * B + b)))"
    using datt by (simp add: at2_data[OF satt])
  ultimately show ?thesis using af satt x sc ne by blast
qed

text \<open>The theorem of C3 on a batch of two with two source positions.\<close>

theorem C3_attention_weights_distribution_witness:
  "Attention_init 1 2 ex_attention2
   \<and> shape (Tensor [2, 2] [0, 0, 0, 0 :: real]) = [2, 2 * 1]
   \<and> shape (Tensor [2, 2, 2] [0, 0, 0, 0, 0, 0, 0, 0 :: real]) = [2, 2, 2 * 1]
   \<and> shape (Tensor [4, 2] [0, 0, 0, 0, 0, 0, 0, 0 :: real]) = [2 * 2, 2 * 1]
   \<and> shape (Tensor [2, 2] [0, 0, 0, 0 :: real]) = [2, 2]
   \<and> (\<exists>ctx att cov'.
         Attention_forward ex_attention2 (Tensor [2, 2] [0, 0, 0, 0])
           (Tensor [2, 2, 2] [0, 0, 0, 0, 0, 0, 0, 0]) (Tensor [4, 2] [0, 0, 0, 0, 0, 0, 0, 0])
           (Tensor [2, 2] [0, 0, 0, 0]) = Some (ctx, att, cov')
         \<and> shape att = [2, 2])"
proof -
  have i: "Attention_init 1 2 ex_attention2"
    by (simp add: Attention_init_def Linear_init_def ex_attention2_def ex_attention_def)
  have p: "(0::nat) < 1" "(0::nat) < 2" by simp_all
  have s1: "shape (Tensor [2, 2] [0, 0, 0, 0 :: real]) = [2, 2 * 1]" by simp
  have s2: "shape (Tensor [2, 2, 2] [0, 0, 0, 0, 0, 0, 0, 0 :: real]) = [2, 2, 2 * 1]" by simp
  have s3: "shape (Tensor [4, 2] [0, 0, 0, 0, 0, 0, 0, 0 :: real]) = [2 * 2, 2 * 1]" by simp
  have s4: "shape (Tensor [2, 2] [0, 0, 0, 0 :: real]) = [2, 2]" by simp
  note t = C3_attention_weights_distribution[OF i p(1) p(2) p(2) s1 s2 s3 s4]
  have e: "\<exists>ctx att cov'.
         Attention_forward ex_attention2 (Tensor [2, 2] [0, 0, 0, 0])
           (Tensor [2, 2, 2] [0, 0, 0, 0, 0, 0, 0, 0]) (Tensor [4, 2] [0, 0, 0, 0, 0, 0, 0, 0])
           (Tensor [2, 2] [0, 0, 0, 0]) = Some (ctx, att, cov')
         \<and> shape att = [2, 2]"
    apply (insert t)
    apply (elim exE conjE)
    apply (rule exI, rule exI, rule exI, rule conjI)
     apply assumption
    apply assumption
    done
  show ?thesis
    apply (intro conjI)
         apply (rule i)
        apply (rule s1)
       apply (rule s2)
      apply (rule s3)
     apply (rule s4)
    apply (rule e)
    done
qed

subsection \<open>C4\<close>

text \<open>
  C4. On every valid input (a decoder as the constructor builds it, a batch of \<open>B\<close> token ids
  of the vocabulary, the state, the encoder output and features, the context and the coverage
  of the shapes of a decoding step) \<^verbatim>\<open>Decoder.forward\<close> returns, the vocabulary
  distribution has shape \<open>[B, V]\<close>, and every row has non-negative entries and sums to 1,
  exactly, over the reals.
\<close>

theorem C4_vocabulary_distribution:
  assumes "Decoder_init V B E H D" and "0 < H" and "0 < B" and "0 < S"
    and "shape x_in = [B]" and "list_all (\<lambda>i. 0 \<le> i \<and> i < int V) (data x_in)"
    and "shape (fst hid) = [1, B, H]" and "shape (snd hid) = [1, B, H]"
    and "shape eo = [B, S, 2 * H]" and "shape ef = [S * B, 2 * H]"
    and "shape ctx = [B, 2 * H]" and "shape cov = [S, B]"
  shows "\<exists>vd dh ctx' att cov'.
           Decoder_forward D x_in hid eo ef ctx cov = Some (vd, dh, ctx', att, cov')
           \<and> shape vd = [B, V]
           \<and> (\<forall>i<B. (\<forall>j<V. 0 \<le> at2 vd i j) \<and> (\<Sum>j<V. at2 vd i j) = 1)"
proof -
  from Decoder_forward_Some[OF assms] obtain vd dh ctx' att cov' where
    dec: "Decoder_forward D x_in hid eo ef ctx cov = Some (vd, dh, ctx', att, cov')"
    by blast
  from assms(1) have V: "out_features (dec_out2 D) = V" "0 < V"
    by (simp_all add: Decoder_init_def Linear_init_def Embedding_init_def)
  have svd: "shape vd = [B, V]" using Decoder_forward_shapes(1)[OF assms(1,2) dec] .
  from Decoder_forward_SomeD[OF dec] obtain y where out: "Decoder_out D y = Some vd"
    and "\<exists>n a b. shape y = [n, a + b]"
    by blast
  then obtain n k where sy: "shape y = [n, k]" by blast
  from Decoder_out_SomeD(1)[OF out sy] svd have n: "n = B" by simp
  have "(\<forall>j<V. 0 \<le> at2 vd i j) \<and> (\<Sum>j<V. at2 vd i j) = 1" if "i < B" for i
    using Decoder_out_SomeD(2,3)[OF out sy, of i] that V n by (simp add: less_imp_le)
  with dec svd show ?thesis by blast
qed

text \<open>The theorem of C4 on the first decoding step of the concrete network.\<close>

theorem C4_vocabulary_distribution_witness:
  "Decoder_init 2 1 1 1 ex_decoder
   \<and> shape (Tensor [1] [1 :: int]) = [1]
   \<and> list_all (\<lambda>i. 0 \<le> i \<and> i < int 2) (data (Tensor [1] [1 :: int]))
   \<and> shape (Tensor [1, 1, 1] [1 :: real]) = [1, 1, 1]
   \<and> shape (Tensor [1, 1, 2] [0, 0 :: real]) = [1, 1, 2 * 1]
   \<and> shape (Tensor [1, 2] [0, 0 :: real]) = [1 * 1, 2 * 1]
   \<and> shape (Tensor [1, 1] [0 :: real]) = [1, 1]
   \<and> (\<exists>vd dh ctx' att cov'.
         Decoder_forward ex_decoder (Tensor [1] [1]) (Tensor [1, 1, 1] [1], Tensor [1, 1, 1] [1])
           (Tensor [1, 1, 2] [0, 0]) (Tensor [1, 2] [0, 0]) (Tensor [1, 2] [0, 0]) (Tensor [1, 1] [0])
           = Some (vd, dh, ctx', att, cov')
         \<and> shape vd = [1, 2])"
proof -
  have p: "(0::nat) < 1" by simp
  have s1: "shape (Tensor [1] [1 :: int]) = [1]" by simp
  have s2: "list_all (\<lambda>i. 0 \<le> i \<and> i < int 2) (data (Tensor [1] [1 :: int]))" by simp
  have s3: "shape (Tensor [1, 1, 1] [1 :: real]) = [1, 1, 1]" by simp
  have s4: "shape (Tensor [1, 1, 2] [0, 0 :: real]) = [1, 1, 2 * 1]" by simp
  have s5: "shape (Tensor [1, 2] [0, 0 :: real]) = [1 * 1, 2 * 1]" by simp
  have s6: "shape (Tensor [1, 1] [0 :: real]) = [1, 1]" by simp
  have f1: "shape (fst (Tensor [1, 1, 1] [1 :: real], Tensor [1, 1, 1] [1 :: real])) = [1, 1, 1]"
    by simp
  have f2: "shape (snd (Tensor [1, 1, 1] [1 :: real], Tensor [1, 1, 1] [1 :: real])) = [1, 1, 1]"
    by simp
  have f3: "shape (Tensor [1, 2] [0, 0 :: real]) = [1, 2 * 1]" by simp
  note t = C4_vocabulary_distribution[OF ex_Decoder_init p p p s1 s2 f1 f2 s4 s5 f3 s6]
  have e: "\<exists>vd dh ctx' att cov'.
         Decoder_forward ex_decoder (Tensor [1] [1]) (Tensor [1, 1, 1] [1], Tensor [1, 1, 1] [1])
           (Tensor [1, 1, 2] [0, 0]) (Tensor [1, 2] [0, 0]) (Tensor [1, 2] [0, 0]) (Tensor [1, 1] [0])
           = Some (vd, dh, ctx', att, cov')
         \<and> shape vd = [1, 2]"
    apply (insert t)
    apply (elim exE conjE)
    apply (rule exI, rule exI, rule exI, rule exI, rule exI, rule conjI)
     apply assumption
    apply assumption
    done
  show ?thesis
    apply (intro conjI)
           apply (rule ex_Decoder_init)
          apply (rule s1)
         apply (rule s2)
        apply (rule s3)
       apply (rule s4)
      apply (rule s5)
     apply (rule s6)
    apply (rule e)
    done
qed

subsection \<open>C5\<close>

text \<open>
  C5. On a valid invocation (a network as the constructor builds it, a text of shape
  \<open>[S, B]\<close> and summaries of shape \<open>[L, B]\<close> with at least \<open>max_summary_length\<close> rows,
  all ids in the vocabulary) the forward pass returns, and each of the three sequences has
  exactly \<open>max_summary_length\<close> entries. They are in step order: for every step \<open>i\<close> the
  loop reaches step \<open>i\<close>, whatever the tokens are, and after step \<open>i\<close> the three lists are
  the first \<open>i + 1\<close> entries of the returned ones.
\<close>

theorem C5_full_length_in_step_order:
  assumes init: "PointerGeneratorNetwork_init V B msl E H N"
    and pos: "0 < H" "0 < E" "0 < B" "0 < S"
    and texts: "shape texts = [S, B]" "ids_in_range V texts"
    and summaries: "shape summaries = [L, B]" "msl \<le> L" "wf summaries" "ids_in_range V summaries"
  shows "\<exists>outs atts covs.
           PointerGeneratorNetwork_forward N texts summaries = Some (outs, atts, covs)
           \<and> length outs = msl \<and> length atts = msl \<and> length covs = msl
           \<and> (\<forall>i<msl. \<exists>st st'.
                  (forward_init N texts \<bind> loop N summaries [0..<i]) = Some st
                  \<and> loop_body N summaries i st = Some st'
                  \<and> l_outputs st' = take (Suc i) outs
                  \<and> l_attention_list st' = take (Suc i) atts
                  \<and> l_coverage_list st' = take (Suc i) covs)"
proof -
  from init have d: "Decoder_init V B E H (pgn_decoder N)" and m: "max_summary_length N = msl"
    by (simp_all add: PointerGeneratorNetwork_init_def)
  note H = pos(1) and B = pos(3) and S = pos(4)
  from forward_init_Some[OF init H texts(1) S texts(2)] obtain st0 where
    i0: "forward_init N texts = Some st0" and ok0: "locals_ok S B H st0"
    and e0: "l_outputs st0 = []" "l_attention_list st0 = []" "l_coverage_list st0 = []"
    by blast
  note lp = loop_Some[OF d H B S summaries(1,3,4)]
  have all: "list_all (\<lambda>i. i < L) [a..<b]" if "b \<le> L" for a b
    using that by (simp add: list_all_iff)
  from lp[OF all[OF summaries(2)] ok0] obtain st where
    l: "loop N summaries [0..<msl] st0 = Some st" by blast
  let ?outs = "l_outputs st" and ?atts = "l_attention_list st" and ?covs = "l_coverage_list st"
  have fw: "PointerGeneratorNetwork_forward N texts summaries = Some (?outs, ?atts, ?covs)"
    by (simp add: PointerGeneratorNetwork_forward_def i0 m l)
  have len: "length ?outs = msl" "length ?atts = msl" "length ?covs = msl"
    using loop_lengths[OF l] e0 by simp_all
  have steps: "\<exists>s1 s2. (forward_init N texts \<bind> loop N summaries [0..<i]) = Some s1
                  \<and> loop_body N summaries i s1 = Some s2
                  \<and> l_outputs s2 = take (Suc i) ?outs
                  \<and> l_attention_list s2 = take (Suc i) ?atts
                  \<and> l_coverage_list s2 = take (Suc i) ?covs" if i: "i < msl" for i
  proof -
    from i summaries(2) have iL: "i \<le> L" "i < L" by simp_all
    from lp[OF all[OF iL(1)] ok0] obtain s1 where
      l1: "loop N summaries [0..<i] st0 = Some s1" and ok1: "locals_ok S B H s1" by blast
    from loop_body_Some[OF d H B S summaries(1,3,4) iL(2) ok1] obtain s2 where
      b: "loop_body N summaries i s1 = Some s2" by blast
    have "[0..<i + (msl - i)] = [0..<i] @ [i..<i + (msl - i)]"
      by (rule upt_add_eq_append) simp
    then have split: "[0..<msl] = [0..<i] @ i # [Suc i..<msl]"
      using i by (simp add: upt_conv_Cons)
    have rest: "loop N summaries [Suc i..<msl] s2 = Some st"
      using l by (simp add: split loop_append l1 b)
    have l2: "loop N summaries [0..<Suc i] st0 = Some s2"
      by (simp add: loop_snoc l1 b)
    have n2: "length (l_outputs s2) = Suc i" "length (l_attention_list s2) = Suc i"
      "length (l_coverage_list s2) = Suc i"
      using loop_lengths[OF l2] e0 by simp_all
    from loop_grows[OF rest] have "l_outputs s2 = take (Suc i) ?outs"
      "l_attention_list s2 = take (Suc i) ?atts" "l_coverage_list s2 = take (Suc i) ?covs"
      by (simp_all add: n2)
    with l1 b show ?thesis by (simp add: i0)
  qed
  from fw len steps show ?thesis by blast
qed

text \<open>The theorem of C5 on the concrete network.\<close>

theorem C5_full_length_in_step_order_witness:
  "PointerGeneratorNetwork_init 2 1 3 1 1 ex_pgn
   \<and> shape ex_texts = [1, 1] \<and> ids_in_range 2 ex_texts
   \<and> shape ex_summaries = [3, 1] \<and> wf ex_summaries \<and> ids_in_range 2 ex_summaries
   \<and> (\<exists>outs atts covs.
         PointerGeneratorNetwork_forward ex_pgn ex_texts ex_summaries = Some (outs, atts, covs)
         \<and> length outs = 3 \<and> length atts = 3 \<and> length covs = 3)"
proof -
  have t: "shape ex_texts = [1, 1]" "ids_in_range 2 ex_texts"
    by (simp_all add: ex_texts_def ids_in_range_def)
  have s: "shape ex_summaries = [3, 1]" "(3::nat) \<le> 3" "wf ex_summaries" "ids_in_range 2 ex_summaries"
    by (simp_all add: ex_summaries_def ids_in_range_def wf_def)
  have p: "(0::nat) < 1" by simp
  from C5_full_length_in_step_order[OF ex_init p p p p t s] ex_init t s show ?thesis
    by blast
qed

subsection \<open>C6\<close>




subsection \<open>C9\<close>

text \<open>
  C9, as stated, fails: with a module built for batch size 2, a batch of 1 and two source
  positions (\<open>2 * 1\<close> is a multiple of 2), the features are summed and the module
  \<^verbatim>\<open>self.attention\<close> returns weights of shape \<open>[2, 1, 1]\<close>, but the batched product of
  these with the encoder output of shape \<open>[1, 2, 2]\<close> raises, and so does the call.
\<close>

theorem C9_mismatched_batch_raises:
  "Attention_summed ex_attention2 ex_hidden2 ex_encoder_out2 ex_encoder_features2 ex_coverage2
     = Some (Tensor [2, 2] [0, 0, 0, 0])
   \<and> Attention_attention ex_attention2 (Tensor [2, 2] [0, 0, 0, 0]) = Some (Tensor [2, 1, 1] [1, 1])
   \<and> bmm (Tensor [2, 1, 1] [1, 1]) ex_encoder_out2 = None
   \<and> shape ex_encoder_out2 = [1, 2, 2]
   \<and> (2 * 1) mod att_batch_size ex_attention2 = 0
   \<and> Attention_forward ex_attention2 ex_hidden2 ex_encoder_out2 ex_encoder_features2 ex_coverage2 = None"
  by (simp add: module_defs ex_attention2_def ex_hidden2_def ex_encoder_out2_def
      ex_encoder_features2_def ex_coverage2_def ex_defs op_defs upt_ev Let_def)

text \<open>
  C9, amended. \<^verbatim>\<open>Attention.forward\<close> has no check of its own of the batch dimension, but
  a call with an encoder output whose batch dimension differs from the batch size the module
  was built with never returns: where the reshape to rows of \<open>batch_size\<close> succeeds, the
  weights have \<open>batch_size\<close> matrices and \<^verbatim>\<open>torch.bmm\<close> rejects the encoder output.
\<close>

theorem C9_batch_size_enforced:
  assumes "shape eo = [b, S, W]" and "b \<noteq> att_batch_size A"
  shows "Attention_forward A hidden eo ef cov = None"
proof (rule ccontr)
  assume "Attention_forward A hidden eo ef cov \<noteq> None"
  then obtain ctx att cov' where "Attention_forward A hidden eo ef cov = Some (ctx, att, cov')"
    by auto
  from Attention_forward_SomeD[OF this assms(1)] assms(2) show False by blast
qed

text \<open>The amended C9 on the module built for batch size 2 and a batch of 1.\<close>

theorem C9_batch_size_enforced_witness:
  "shape ex_encoder_out2 = [1, 2, 2] \<and> 1 \<noteq> att_batch_size ex_attention2
   \<and> Attention_forward ex_attention2 ex_hidden2 ex_encoder_out2 ex_encoder_features2 ex_coverage2 = None"
  using C9_batch_size_enforced[of ex_encoder_out2 1 2 2 ex_attention2 ex_hidden2
      ex_encoder_features2 ex_coverage2]
  by (simp add: ex_encoder_out2_def ex_attention2_def ex_attention_def)

subsection \<open>C10\<close>

text \<open>
  C10, as stated, fails on the concrete network: with a single source position the softmax
  over the positions gives the weight 1, so the attention distribution of the batch element
  is one-hot.
\<close>

theorem C10_one_hot_attention:
  "PointerGeneratorNetwork_forward ex_pgn ex_texts ex_summaries
     = Some (ex_outputs, ex_attentions, ex_coverages)
   \<and> column (ex_attentions ! 0) 0 = [1]
   \<and> one_hot (column (ex_attentions ! 0) 0)"
  using ex_forward
  by (simp add: ex_attentions_def column_def at2_def one_hot_def upt_ev)

text \<open>
  C10, amended. For a network as the constructor builds it and a text of shape \<open>[S, B]\<close>,
  every entry of every returned vocabulary distribution, attention weight vector and
  coverage vector is strictly positive. Hence no row of a vocabulary distribution is one-hot
  when the vocabulary has at least two tokens, and no attention distribution of a batch
  element is one-hot when the source has at least two positions.
\<close>

theorem C10_strictly_positive:
  assumes init: "PointerGeneratorNetwork_init V B msl E H N" and H: "0 < H"
    and fw: "PointerGeneratorNetwork_forward N texts summaries = Some (outs, atts, covs)"
    and st: "shape texts = [S, B]"
  shows "\<forall>t<msl.
           (\<forall>i<B. \<forall>j<V. 0 < at2 (outs ! t) i j)
           \<and> (\<forall>s<S. \<forall>b<B. 0 < at2 (atts ! t) s b \<and> 0 < at2 (covs ! t) s b)
           \<and> (2 \<le> V \<longrightarrow> (\<forall>i<B. \<not> one_hot (row (outs ! t) i)))
           \<and> (2 \<le> S \<longrightarrow> (\<forall>b<B. \<not> one_hot (column (atts ! t) b)))"
proof (intro allI impI)
  fix t assume t: "t < msl"
  from init have m: "max_summary_length N = msl" by (simp add: PointerGeneratorNetwork_init_def)
  from forward_coverage_inv[OF fw st] obtain s1 where
    inv: "coverage_inv S B s1" and r: "l_attention_list s1 = atts" "l_coverage_list s1 = covs"
    and len: "length atts = msl" "length covs = msl" "length outs = msl"
    by (auto simp: m)
  from forward_outputs_inv[OF init H fw] obtain s2 where
    oinv: "outputs_inv B V s2" and ro: "l_outputs s2 = outs" by blast
  from oinv ro len t have so: "shape (outs ! t) = [B, V]"
    and po: "\<And>i j. i < B \<Longrightarrow> j < V \<Longrightarrow> 0 < at2 (outs ! t) i j"
    unfolding outputs_inv_def by auto
  from inv r len t have sh: "shape (covs ! t) = [S, B]" "shape (atts ! t) = [S, B]"
    and el: "\<And>u k. u \<le> t \<Longrightarrow> k < S * B \<Longrightarrow> 0 < data (atts ! u) ! k"
    and sm: "\<And>k. k < S * B \<Longrightarrow> data (covs ! t) ! k = (\<Sum>j\<le>t. data (atts ! j) ! k)"
    unfolding coverage_inv_def by auto
  have pa: "0 < at2 (atts ! t) s b" if "s < S" "b < B" for s b
    using el[OF le_refl idx_lt[OF that]] by (simp add: at2_data[OF sh(2)])
  have pc: "0 < at2 (covs ! t) s b" if "s < S" "b < B" for s b
  proof -
    have "0 < (\<Sum>j\<le>t. data (atts ! j) ! (s * B + b))"
      by (rule sum_pos) (simp_all add: el idx_lt[OF that])
    then show ?thesis using sm[OF idx_lt[OF that]] by (simp add: at2_data[OF sh(1)])
  qed
  have nr: "\<not> one_hot (row (outs ! t) i)" if "2 \<le> V" "i < B" for i
    by (rule positive_not_one_hot) (simp_all add: row_def so that po)
  have nc: "\<not> one_hot (column (atts ! t) b)" if "2 \<le> S" "b < B" for b
    by (rule positive_not_one_hot) (simp_all add: column_def sh that pa)
  show "(\<forall>i<B. \<forall>j<V. 0 < at2 (outs ! t) i j)
           \<and> (\<forall>s<S. \<forall>b<B. 0 < at2 (atts ! t) s b \<and> 0 < at2 (covs ! t) s b)
           \<and> (2 \<le> V \<longrightarrow> (\<forall>i<B. \<not> one_hot (row (outs ! t) i)))
           \<and> (2 \<le> S \<longrightarrow> (\<forall>b<B. \<not> one_hot (column (atts ! t) b)))"
    using po pa pc nr nc by blast
qed

text \<open>The amended C10 on the concrete network, at the last step.\<close>

theorem C10_strictly_positive_witness:
  "PointerGeneratorNetwork_init 2 1 3 1 1 ex_pgn
   \<and> PointerGeneratorNetwork_forward ex_pgn ex_texts ex_summaries
       = Some (ex_outputs, ex_attentions, ex_coverages)
   \<and> shape ex_texts = [1, 1]
   \<and> 0 < at2 (ex_outputs ! 2) 0 1 \<and> 0 < at2 (ex_attentions ! 2) 0 0
   \<and> 0 < at2 (ex_coverages ! 2) 0 0
   \<and> \<not> one_hot (row (ex_outputs ! 2) 0)"
proof -
  have t: "shape ex_texts = [1, 1]" by (simp add: ex_texts_def)
  have p: "(0::nat) < 1" by simp
  from C10_strictly_positive[OF ex_init p ex_forward t] ex_init ex_forward t show ?thesis
    by simp
qed

end
